theory Spec2Isabelle
  imports Main "HOL-Library.Sublist"
begin

section \<open>Intents and the logger\<close>

text \<open>
  \<^verbatim>\<open>src/types.ts\<close>: \<^verbatim>\<open>type DeepLinkIntent = 'launch' | 'open-url'\<close>. JavaScript strings are
  modelled as \<^typ>\<open>string\<close>.
\<close>

datatype DeepLinkIntent = Launch | OpenUrl

fun intent_text :: "DeepLinkIntent \<Rightarrow> string" where
  "intent_text Launch = ''launch''"
| "intent_text OpenUrl = ''open-url''"

text \<open>
  The \<^verbatim>\<open>Logger\<close> interface has three methods \<^verbatim>\<open>debug\<close>, \<^verbatim>\<open>info\<close> and \<^verbatim>\<open>error\<close>, each taking one
  message and returning nothing. A logger is modelled by the trace of the messages it has
  received, oldest first; its methods are taken to return normally.
\<close>

datatype log_entry = Debug string | Info string | Error string

text \<open>Decimal rendering of a length inside a template literal.\<close>

fun show_nat :: "nat \<Rightarrow> string" where
  "show_nat n =
     (if n < 10 then [char_of (48 + n)]
      else show_nat (n div 10) @ [char_of (48 + n mod 10)])"

declare show_nat.simps [simp del]

section \<open>The deep-link queue (\<^verbatim>\<open>src/queue.ts\<close>)\<close>

record QueuedDeepLink =
  url :: string
  intent :: DeepLinkIntent

text \<open>
  The three private fields of \<^verbatim>\<open>class DeepLinkQueue\<close>. The field \<open>logger\<close> holds the trace of
  the messages sent to \<^verbatim>\<open>this.logger\<close>.
\<close>

record DeepLinkQueue =
  queue :: "QueuedDeepLink list"
  processed :: bool
  logger :: "log_entry list"

definition log_to :: "log_entry \<Rightarrow> DeepLinkQueue \<Rightarrow> DeepLinkQueue" where
  "log_to e q = q\<lparr>logger := logger q @ [e]\<rparr>"

text \<open>\<^verbatim>\<open>new DeepLinkQueue(logger?)\<close>: an empty array, \<^verbatim>\<open>processed = false\<close>.\<close>

definition DeepLinkQueue_new :: DeepLinkQueue where
  "DeepLinkQueue_new = \<lparr>queue = [], processed = False, logger = []\<rparr>"

definition enqueue :: "string \<Rightarrow> DeepLinkIntent \<Rightarrow> DeepLinkQueue \<Rightarrow> DeepLinkQueue" where
  "enqueue u i q =
     (if processed q
      then log_to (Debug (''Deep link queue already processed, not queuing: '' @ u)) q
      else (log_to (Debug (''Queuing deep link: '' @ u)) q)
             \<lparr>queue := queue q @ [\<lparr>url = u, intent = i\<rparr>]\<rparr>)"

text \<open>The object spread \<^verbatim>\<open>{ ...item }\<close>: a new entry with the same two fields.\<close>

definition copy_entry :: "QueuedDeepLink \<Rightarrow> QueuedDeepLink" where
  "copy_entry item = \<lparr>url = url item, intent = intent item\<rparr>"

definition drain :: "DeepLinkQueue \<Rightarrow> QueuedDeepLink list \<times> DeepLinkQueue" where
  "drain q =
     (if processed q
      then ([], log_to (Debug ''Deep link queue already drained'') q)
      else
        (let urls = map copy_entry (queue q)
         in (urls,
             log_to (Debug (''Draining '' @ show_nat (length urls) @ '' deep link(s) from queue''))
               (q\<lparr>processed := True, queue := []\<rparr>))))"

definition peek :: "DeepLinkQueue \<Rightarrow> QueuedDeepLink list \<times> DeepLinkQueue" where
  "peek q = (map copy_entry (queue q), q)"

definition clear :: "DeepLinkQueue \<Rightarrow> DeepLinkQueue" where
  "clear q =
     (log_to (Debug (''Clearing '' @ show_nat (length (queue q)) @ '' deep link(s) from queue'')) q)
       \<lparr>queue := []\<rparr>"

definition isProcessed :: "DeepLinkQueue \<Rightarrow> bool" where
  "isProcessed q = processed q"

definition size_q :: "DeepLinkQueue \<Rightarrow> nat" where
  "size_q q = length (queue q)"

definition hasItems :: "DeepLinkQueue \<Rightarrow> bool" where
  "hasItems q = (length (queue q) > 0)"

definition reset :: "DeepLinkQueue \<Rightarrow> DeepLinkQueue" where
  "reset q = (log_to (Debug ''Resetting deep link queue'') q)\<lparr>queue := [], processed := False\<rparr>"

text \<open>A sequence of \<^verbatim>\<open>enqueue\<close> calls, first call first.\<close>

fun enqueue_all :: "(string \<times> DeepLinkIntent) list \<Rightarrow> DeepLinkQueue \<Rightarrow> DeepLinkQueue" where
  "enqueue_all [] q = q"
| "enqueue_all ((u, i) # rest) q = enqueue_all rest (enqueue u i q)"

definition entry_of :: "string \<times> DeepLinkIntent \<Rightarrow> QueuedDeepLink" where
  "entry_of p = \<lparr>url = fst p, intent = snd p\<rparr>"




section \<open>URL parsing (\<^verbatim>\<open>src/url-parser.ts\<close>)\<close>

text \<open>
  The fields of the platform's \<^verbatim>\<open>URL\<close> object that the package reads or hands on.
  \<open>searchParams\<close> is the list of name-value pairs of the \<^verbatim>\<open>URLSearchParams\<close> object, in order.
\<close>

record URL =
  protocol :: string
  host :: string
  pathname :: string
  search :: string
  searchParams :: "(string \<times> string) list"
  hash :: string

text \<open>
  \<^verbatim>\<open>new URL(url)\<close> is the platform's constructor, not code of this package. It is a parameter
  of the model: \<open>None\<close> stands for the \<^verbatim>\<open>TypeError\<close> it throws on an invalid URL.
\<close>

type_synonym URL_ctor = "string \<Rightarrow> URL option"

record ParsedDeepLink =
  url :: string
  parsed :: URL
  protocol :: string
  host :: string
  path :: string
  params :: "(string \<times> string) list"
  hash :: string

text \<open>\<^verbatim>\<open>s.replace(/:$/, '')\<close>: removes one colon at the very end of the string.\<close>

definition replace_trailing_colon :: "string \<Rightarrow> string" where
  "replace_trailing_colon s = (if s \<noteq> [] \<and> last s = CHR '':'' then butlast s else s)"

text \<open>The \<^verbatim>\<open>try\<close> block fails only in the constructor; the \<^verbatim>\<open>catch\<close> returns \<^verbatim>\<open>null\<close>.\<close>

definition parseDeepLink :: "URL_ctor \<Rightarrow> string \<Rightarrow> ParsedDeepLink option" where
  "parseDeepLink new_URL u =
     (case new_URL u of
        None \<Rightarrow> None
      | Some p \<Rightarrow>
          Some \<lparr>url = u,
                parsed = p,
                protocol = replace_trailing_colon (URL.protocol p),
                host = URL.host p,
                path = pathname p,
                params = searchParams p,
                hash = URL.hash p\<rparr>)"

record DeepLinkContext =
  url :: string
  parsed :: URL
  protocol :: string
  path :: string
  params :: "(string \<times> string) list"
  intent :: DeepLinkIntent

definition createDeepLinkContext ::
  "URL_ctor \<Rightarrow> string \<Rightarrow> DeepLinkIntent \<Rightarrow> DeepLinkContext option" where
  "createDeepLinkContext new_URL u i =
     (case parseDeepLink new_URL u of
        None \<Rightarrow> None
      | Some p \<Rightarrow>
          Some \<lparr>url = ParsedDeepLink.url p,
                parsed = ParsedDeepLink.parsed p,
                protocol = ParsedDeepLink.protocol p,
                path = ParsedDeepLink.path p,
                params = ParsedDeepLink.params p,
                intent = i\<rparr>)"

definition isRegisteredProtocol :: "URL_ctor \<Rightarrow> string \<Rightarrow> string list \<Rightarrow> bool" where
  "isRegisteredProtocol new_URL u schemes =
     (case parseDeepLink new_URL u of
        None \<Rightarrow> False
      | Some p \<Rightarrow> ParsedDeepLink.protocol p \<in> set schemes)"

section \<open>The platform's URL constructor\<close>

text \<open>
  What the package relies on from \<^verbatim>\<open>new URL(input)\<close> (URL Standard, basic URL parser without a
  base URL) is written out here. Characters are the code units of the input; the character
  classes are those of the standard.
\<close>

definition is_ascii_alpha :: "char \<Rightarrow> bool" where
  "is_ascii_alpha c =
     (let n = of_char c :: nat in (65 \<le> n \<and> n \<le> 90) \<or> (97 \<le> n \<and> n \<le> 122))"

definition is_ascii_digit :: "char \<Rightarrow> bool" where
  "is_ascii_digit c = (let n = of_char c :: nat in 48 \<le> n \<and> n \<le> 57)"

definition is_scheme_char :: "char \<Rightarrow> bool" where
  "is_scheme_char c =
     (is_ascii_alpha c \<or> is_ascii_digit c
      \<or> c = CHR ''+'' \<or> c = CHR ''-'' \<or> c = CHR ''.'')"

definition ascii_lower :: "char \<Rightarrow> char" where
  "ascii_lower c =
     (let n = of_char c :: nat in if 65 \<le> n \<and> n \<le> 90 then char_of (n + 32) else c)"

definition is_c0_or_space :: "char \<Rightarrow> bool" where
  "is_c0_or_space c = (of_char c \<le> (32 :: nat))"

definition is_tab_or_newline :: "char \<Rightarrow> bool" where
  "is_tab_or_newline c = (of_char c \<in> {9, 10, 13 :: nat})"

text \<open>
  The parser first removes leading and trailing C0 control characters and spaces, then all
  tabs and newlines.
\<close>

definition url_input :: "string \<Rightarrow> string" where
  "url_input raw =
     filter (\<lambda>c. \<not> is_tab_or_newline c)
       (rev (dropWhile is_c0_or_space (rev (dropWhile is_c0_or_space raw))))"

text \<open>
  Scheme start state and scheme state: an ASCII letter, then letters, digits, \<^verbatim>\<open>+\<close>, \<^verbatim>\<open>-\<close> and
  \<^verbatim>\<open>.\<close> up to a colon; the scheme is lower-cased. Anything else leads to the no-scheme state,
  which fails when there is no base URL. The result is the scheme and what follows the colon.
\<close>

definition split_scheme :: "string \<Rightarrow> (string \<times> string) option" where
  "split_scheme s =
     (case s of
        [] \<Rightarrow> None
      | c # cs \<Rightarrow>
          if \<not> is_ascii_alpha c then None
          else (case dropWhile is_scheme_char cs of
                  [] \<Rightarrow> None
                | d # rest \<Rightarrow>
                    if d = CHR '':''
                    then Some (map ascii_lower (c # takeWhile is_scheme_char cs), rest)
                    else None))"

text \<open>
  The contract of the constructor used in the proofs: when it accepts an input, the input
  has a scheme, and \<^verbatim>\<open>protocol\<close> is that scheme in lower case followed by one colon. Nothing
  is assumed of the other fields of the URL.
\<close>

definition url_standard :: "URL_ctor \<Rightarrow> bool" where
  "url_standard new_URL =
     (\<forall>raw u. new_URL raw = Some u \<longrightarrow>
        (\<exists>scheme rest. split_scheme (url_input raw) = Some (scheme, rest)
            \<and> URL.protocol u = scheme @ '':''))"

text \<open>
  The \<^verbatim>\<open>application/x-www-form-urlencoded\<close> parser behind \<^verbatim>\<open>searchParams\<close>, for the reference
  constructor below. Its percent-decoding works on bytes; a \<^typ>\<open>char\<close> is a byte here.
\<close>

definition is_hex_digit :: "char \<Rightarrow> bool" where
  "is_hex_digit c =
     (let n = of_char c :: nat
      in (48 \<le> n \<and> n \<le> 57) \<or> (65 \<le> n \<and> n \<le> 70) \<or> (97 \<le> n \<and> n \<le> 102))"

definition hex_value :: "char \<Rightarrow> nat" where
  "hex_value c =
     (let n = of_char c :: nat
      in if n \<le> 57 then n - 48 else if n \<le> 70 then n - 55 else n - 87)"

fun percent_decode_bytes :: "string \<Rightarrow> string" where
  "percent_decode_bytes (c # h1 # h2 # cs) =
     (if c = CHR ''%'' \<and> is_hex_digit h1 \<and> is_hex_digit h2
      then char_of (16 * hex_value h1 + hex_value h2) # percent_decode_bytes cs
      else c # percent_decode_bytes (h1 # h2 # cs))"
| "percent_decode_bytes [c, h1] = c # percent_decode_bytes [h1]"
| "percent_decode_bytes [c] = [c]"
| "percent_decode_bytes [] = []"

text \<open>
  The parser then decodes the bytes as UTF-8. Bytes below 128 are the characters of the
  same code. Only that case is covered: a byte of 128 or above, which stands for part of a
  character beyond ASCII or for a malformed sequence, gives \<open>None\<close>.
\<close>

definition utf8_decode_ascii :: "string \<Rightarrow> string option" where
  "utf8_decode_ascii bytes =
     (if list_all (\<lambda>b. of_char b < (128 :: nat)) bytes then Some bytes else None)"

fun split_on :: "char \<Rightarrow> string \<Rightarrow> string list" where
  "split_on sep [] = [[]]"
| "split_on sep (c # cs) =
     (if c = sep then [] # split_on sep cs
      else (case split_on sep cs of
              [] \<Rightarrow> [[c]]
            | piece # pieces \<Rightarrow> (c # piece) # pieces))"

definition plus_to_space :: "string \<Rightarrow> string" where
  "plus_to_space s = map (\<lambda>c. if c = CHR ''+'' then CHR '' '' else c) s"

definition urlencoded_string :: "string \<Rightarrow> string option" where
  "urlencoded_string s = utf8_decode_ascii (percent_decode_bytes (plus_to_space s))"

definition urlencoded_pair :: "string \<Rightarrow> (string \<times> string) option" where
  "urlencoded_pair s =
     (case urlencoded_string (takeWhile (\<lambda>c. c \<noteq> CHR ''='') s) of
        None \<Rightarrow> None
      | Some name \<Rightarrow>
          (case urlencoded_string (drop 1 (dropWhile (\<lambda>c. c \<noteq> CHR ''='') s)) of
             None \<Rightarrow> None
           | Some v \<Rightarrow> Some (name, v)))"

definition urlencoded_parse :: "string \<Rightarrow> (string \<times> string) list option" where
  "urlencoded_parse s =
     those (map urlencoded_pair (filter (\<lambda>piece. piece \<noteq> []) (split_on (CHR ''&'') s)))"

text \<open>
  A reference constructor for the proofs about concrete URLs. It follows the standard's
  parser on inputs \<^verbatim>\<open>scheme://host/path?query#fragment\<close> whose scheme is not one of the special
  schemes and whose host, path, query and fragment consist of printable ASCII characters
  that the parser copies unchanged (no credentials, no port, no \<^verbatim>\<open>.\<close> or \<^verbatim>\<open>..\<close> path segment,
  no character that it would percent-encode, no \<^verbatim>\<open>%\<close> outside the query and fragment, and
  in the query no escape that decodes to a byte of 128 or above). It reports failure on
  every other input, which the platform does only for some of them.
\<close>

definition special_schemes :: "string list" where
  "special_schemes = [''ftp'', ''file'', ''http'', ''https'', ''ws'', ''wss'']"

definition is_printable :: "char \<Rightarrow> bool" where
  "is_printable c = (let n = of_char c :: nat in 33 \<le> n \<and> n \<le> 126)"

definition plain_host_char :: "char \<Rightarrow> bool" where
  "plain_host_char c =
     (is_printable c
      \<and> of_char c \<notin> {35, 37, 47, 58, 60, 62, 63, 64, 91, 92, 93, 94, 124 :: nat})"

definition plain_path_char :: "char \<Rightarrow> bool" where
  "plain_path_char c =
     (is_printable c \<and> of_char c \<notin> {34, 35, 37, 60, 62, 63, 92, 94, 96, 123, 125 :: nat})"

definition no_dot_segment :: "string \<Rightarrow> bool" where
  "no_dot_segment path_part =
     list_all (\<lambda>segment. segment \<noteq> ''.'' \<and> segment \<noteq> ''..'')
       (split_on (CHR ''/'') path_part)"

definition plain_query_char :: "char \<Rightarrow> bool" where
  "plain_query_char c = (is_printable c \<and> of_char c \<notin> {34, 35, 60, 62 :: nat})"

definition plain_fragment_char :: "char \<Rightarrow> bool" where
  "plain_fragment_char c = (is_printable c \<and> of_char c \<notin> {34, 60, 62, 96 :: nat})"

definition URL_new :: URL_ctor where
  "URL_new raw =
     (case split_scheme (url_input raw) of
        None \<Rightarrow> None
      | Some (scheme, rest) \<Rightarrow>
          if scheme \<in> set special_schemes \<or> take 2 rest \<noteq> ''//'' then None
          else
            (let after = drop 2 rest;
                 authority = takeWhile (\<lambda>c. c \<notin> set ''/?#'') after;
                 after_host = dropWhile (\<lambda>c. c \<notin> set ''/?#'') after;
                 path_part = takeWhile (\<lambda>c. c \<notin> set ''?#'') after_host;
                 after_path = dropWhile (\<lambda>c. c \<notin> set ''?#'') after_host;
                 query = (if take 1 after_path = ''?''
                          then takeWhile (\<lambda>c. c \<noteq> CHR ''#'') (drop 1 after_path) else []);
                 after_query = dropWhile (\<lambda>c. c \<noteq> CHR ''#'') after_path;
                 fragment = drop 1 after_query
             in if list_all plain_host_char authority
                   \<and> list_all plain_path_char path_part \<and> no_dot_segment path_part
                   \<and> list_all plain_query_char query \<and> list_all plain_fragment_char fragment
                then (case urlencoded_parse query of
                        None \<Rightarrow> None
                      | Some pairs \<Rightarrow>
                          Some \<lparr>URL.protocol = scheme @ '':'',
                                URL.host = authority,
                                pathname = path_part,
                                search = (if query = [] then [] else CHR ''?'' # query),
                                searchParams = pairs,
                                URL.hash = (if fragment = [] then [] else CHR ''#'' # fragment)\<rparr>)
                else None))"

section \<open>Options and the consumer callback (\<^verbatim>\<open>src/types.ts\<close>)\<close>

text \<open>
  A \<^verbatim>\<open>DeepLinkHandler\<close> returns \<^verbatim>\<open>void | Promise<void>\<close>. One call of it returns a value that
  is not a promise, throws, or returns a promise that is fulfilled, is rejected, or never
  settles. The thrown value or rejection reason is modelled by its rendering
  \<^verbatim>\<open>String(error)\<close>, which is taken to exist.
\<close>

datatype outcome = Returned | Threw string | Resolved | Rejected string | Pending

text \<open>
  The handler may keep state of its own: its outcome is a function of the calls made to it
  before, the URL and the context. It is taken not to call back into the package.
\<close>

type_synonym DeepLinkHandler =
  "(string \<times> DeepLinkContext) list \<Rightarrow> string \<Rightarrow> DeepLinkContext \<Rightarrow> outcome"

record SquirrelOptions =
  createDesktopShortcut :: "bool option"
  createStartMenuShortcut :: "bool option"
  shortcutName :: "string option"

record WindowsOptions =
  handleSquirrelEvents :: "bool option"
  squirrelOptions :: "SquirrelOptions option"

record LinuxOptions =
  desktopFileName :: "string option"

text \<open>
  \<^verbatim>\<open>SetupOptions\<close>. An optional field is an \<open>option\<close>. \<open>onInstanceLockFailed\<close> tells whether
  the callback is given; \<^verbatim>\<open>logger\<close> is modelled by the trace and \<^verbatim>\<open>macos\<close> has no fields.
\<close>

record SetupOptions =
  protocols :: "string list option"
  onDeepLink :: "DeepLinkHandler option"
  onInstanceLockFailed :: bool
  windows :: "WindowsOptions option"
  linux :: "LinuxOptions option"

section \<open>The host: Electron's \<^verbatim>\<open>app\<close> and the Node process\<close>

text \<open>\<^verbatim>\<open>process.platform\<close>: \<^verbatim>\<open>'darwin'\<close>, \<^verbatim>\<open>'win32'\<close>, \<^verbatim>\<open>'linux'\<close>, or any other value.\<close>

datatype platform = Darwin | Win32 | Linux | OtherPlatform

text \<open>
  What the package reads from its host. The answers of the operating system are
  parameters: \<open>setAsDefaultProtocolClient\<close> is the result of
  \<^verbatim>\<open>app.setAsDefaultProtocolClient(scheme, path?, args?)\<close>, \<open>lock_available\<close> that of
  \<^verbatim>\<open>app.requestSingleInstanceLock()\<close>, and \<open>desktop_shortcut name\<close> that of \<^verbatim>\<open>existsSync\<close> on the
  shortcut file of that name. \<open>target_exe_name\<close> is \<^verbatim>\<open>path.basename(process.execPath)\<close>.
  The other fields are \<^verbatim>\<open>process.platform\<close>, \<^verbatim>\<open>process.argv\<close>, \<^verbatim>\<open>process.execPath\<close>,
  \<^verbatim>\<open>app.isPackaged\<close> and \<^verbatim>\<open>app.name\<close>.
\<close>

record host_env =
  process_platform :: platform
  process_argv :: "string list"
  process_execPath :: string
  app_isPackaged :: bool
  app_name :: string
  setAsDefaultProtocolClient :: "string \<Rightarrow> string option \<Rightarrow> string list option \<Rightarrow> bool"
  lock_available :: bool
  desktop_shortcut :: "string \<Rightarrow> bool"
  target_exe_name :: string

text \<open>
  What the package does to its host, in order. \<open>RunSquirrelCommand args\<close> is
  \<^verbatim>\<open>runSquirrelCommand(args, () => app.quit())\<close>: \<^verbatim>\<open>Update.exe\<close> is spawned and the app quits when
  it closes. \<open>OnSecondInstance\<close> and \<open>OnOpenUrl\<close> are the registrations of the two listeners.
\<close>

datatype app_effect =
    RequestSingleInstanceLock
  | Quit
  | RunSquirrelCommand "string list"
  | OnInstanceLockFailed
  | OnSecondInstance
  | OnOpenUrl

section \<open>Platform handlers (\<^verbatim>\<open>src/platforms\<close>)\<close>

text \<open>\<^verbatim>\<open>arg.startsWith(`${protocol}://`)\<close> for some protocol of the list, first protocol first.\<close>

fun starts_with_protocol :: "string \<Rightarrow> string list \<Rightarrow> bool" where
  "starts_with_protocol arg [] = False"
| "starts_with_protocol arg (scheme # rest) =
     (if prefix (scheme @ ''://'') arg then True else starts_with_protocol arg rest)"

text \<open>macOS and Linux: \<^verbatim>\<open>for (const arg of argv)\<close>.\<close>

fun macos_extractDeepLinkFromArgs :: "string list \<Rightarrow> string list \<Rightarrow> string option" where
  "macos_extractDeepLinkFromArgs [] schemes = None"
| "macos_extractDeepLinkFromArgs (arg # rest) schemes =
     (if starts_with_protocol arg schemes then Some arg
      else macos_extractDeepLinkFromArgs rest schemes)"

fun linux_extractDeepLinkFromArgs :: "string list \<Rightarrow> string list \<Rightarrow> string option" where
  "linux_extractDeepLinkFromArgs [] schemes = None"
| "linux_extractDeepLinkFromArgs (arg # rest) schemes =
     (if starts_with_protocol arg schemes then Some arg
      else linux_extractDeepLinkFromArgs rest schemes)"

text \<open>
  Windows: \<^verbatim>\<open>for (let i = argv.length - 1; i >= 0; i--)\<close>. The third argument is \<open>i + 1\<close>, so
  that the loop ends at 0; the index is always below \<^verbatim>\<open>argv.length\<close>.
\<close>

fun windows_scan :: "string list \<Rightarrow> string list \<Rightarrow> nat \<Rightarrow> string option" where
  "windows_scan argv schemes 0 = None"
| "windows_scan argv schemes (Suc i) =
     (if starts_with_protocol (argv ! i) schemes then Some (argv ! i)
      else windows_scan argv schemes i)"

definition windows_extractDeepLinkFromArgs :: "string list \<Rightarrow> string list \<Rightarrow> string option" where
  "windows_extractDeepLinkFromArgs argv schemes = windows_scan argv schemes (length argv)"

text \<open>
  The property of an argument that the three variants look for, stated apart from their
  loops: it starts with \<^verbatim>\<open><scheme>://\<close> for a scheme of the list.
\<close>

definition is_deep_link :: "string list \<Rightarrow> string \<Rightarrow> bool" where
  "is_deep_link schemes arg = (\<exists>p \<in> set schemes. prefix (p @ ''://'') arg)"

text \<open>
  Development mode: \<^verbatim>\<open>process.argv.slice(1)\<close> without the arguments that are links of the
  scheme.
\<close>

definition cleanArgs :: "host_env \<Rightarrow> string \<Rightarrow> string list" where
  "cleanArgs env scheme =
     filter (\<lambda>arg. \<not> prefix (scheme @ ''://'') arg) (drop 1 (process_argv env))"

definition macos_registerProtocol :: "host_env \<Rightarrow> string \<Rightarrow> SetupOptions \<Rightarrow> bool" where
  "macos_registerProtocol env scheme opts =
     (if app_isPackaged env then setAsDefaultProtocolClient env scheme None None
      else setAsDefaultProtocolClient env scheme (Some (process_execPath env))
             (Some (cleanArgs env scheme)))"

definition windows_registerProtocol :: "host_env \<Rightarrow> string \<Rightarrow> SetupOptions \<Rightarrow> bool" where
  "windows_registerProtocol env scheme opts =
     (if app_isPackaged env then setAsDefaultProtocolClient env scheme None None
      else setAsDefaultProtocolClient env scheme (Some (process_execPath env))
             (Some (cleanArgs env scheme)))"

definition linux_registerProtocol :: "host_env \<Rightarrow> string \<Rightarrow> SetupOptions \<Rightarrow> bool" where
  "linux_registerProtocol env scheme opts =
     (if app_isPackaged env
      then (case (case linux opts of None \<Rightarrow> None | Some l \<Rightarrow> desktopFileName l) of
              Some name \<Rightarrow>
                if name \<noteq> [] then setAsDefaultProtocolClient env scheme None (Some [name])
                else setAsDefaultProtocolClient env scheme None None
            | None \<Rightarrow> setAsDefaultProtocolClient env scheme None None)
      else setAsDefaultProtocolClient env scheme (Some (process_execPath env))
             (Some (cleanArgs env scheme)))"

text \<open>Squirrel.Windows (\<^verbatim>\<open>src/platforms/windows.ts\<close>).\<close>

definition squirrelEvents :: "string list" where
  "squirrelEvents =
     [''--squirrel-install'', ''--squirrel-updated'', ''--squirrel-uninstall'',
      ''--squirrel-obsolete'', ''--squirrel-firstrun'']"

fun getSquirrelEvent :: "string list \<Rightarrow> string option" where
  "getSquirrelEvent [] = None"
| "getSquirrelEvent (arg # rest) =
     (if arg \<in> set squirrelEvents then Some arg else getSquirrelEvent rest)"

datatype shortcut_action = create | remove

definition buildShortcutArgs ::
  "shortcut_action \<Rightarrow> string \<Rightarrow> SquirrelOptions option \<Rightarrow> string list" where
  "buildShortcutArgs action target opts =
     (case action of
        create \<Rightarrow>
          (let createDesktop =
                 ((case opts of None \<Rightarrow> None | Some so \<Rightarrow> createDesktopShortcut so)
                    \<noteq> Some False);
               createStartMenu =
                 ((case opts of None \<Rightarrow> None | Some so \<Rightarrow> createStartMenuShortcut so)
                    \<noteq> Some False)
           in if createDesktop \<and> createStartMenu then [''--createShortcut='' @ target]
              else if createDesktop
              then [''--createShortcut='' @ target, ''--shortcut-locations=Desktop'']
              else if createStartMenu
              then [''--createShortcut='' @ target, ''--shortcut-locations=StartMenu'']
              else [])
      | remove \<Rightarrow> [''--removeShortcut='' @ target])"

text \<open>\<^verbatim>\<open>handleStartupEvents\<close> of the Windows handler: its result and what it does to the host.\<close>

definition windows_handleStartupEvents ::
  "host_env \<Rightarrow> SetupOptions \<Rightarrow> bool \<times> app_effect list" where
  "windows_handleStartupEvents env opts =
     (if (case windows opts of None \<Rightarrow> None | Some w \<Rightarrow> handleSquirrelEvents w) = Some False
      then (False, [])
      else
        (case getSquirrelEvent (process_argv env) of
           None \<Rightarrow> (False, [])
         | Some squirrelEvent \<Rightarrow>
             (let target = target_exe_name env;
                  sqOptions =
                    (case windows opts of None \<Rightarrow> None | Some w \<Rightarrow> squirrelOptions w);
                  name =
                    (case (case sqOptions of None \<Rightarrow> None | Some so \<Rightarrow> shortcutName so) of
                            None \<Rightarrow> app_name env
                          | Some n \<Rightarrow> n)
              in if squirrelEvent = ''--squirrel-install''
                 then (let args = buildShortcutArgs create target sqOptions
                       in if length args > 0 then (True, [RunSquirrelCommand args])
                          else (True, [Quit]))
                 else if squirrelEvent = ''--squirrel-updated''
                 then (if desktop_shortcut env name
                       then (let args = buildShortcutArgs create target sqOptions
                             in if length args > 0 then (True, [RunSquirrelCommand args])
                                else (True, [Quit]))
                       else (True, [Quit]))
                 else if squirrelEvent = ''--squirrel-uninstall''
                 then (True, [RunSquirrelCommand (buildShortcutArgs remove target sqOptions)])
                 else if squirrelEvent = ''--squirrel-obsolete''
                 then (True, [Quit])
                 else if squirrelEvent = ''--squirrel-firstrun''
                 then (False, [])
                 else (False, []))))"

record PlatformHandler =
  registerProtocol :: "host_env \<Rightarrow> string \<Rightarrow> SetupOptions \<Rightarrow> bool"
  extractDeepLinkFromArgs :: "string list \<Rightarrow> string list \<Rightarrow> string option"
  handleStartupEvents :: "(host_env \<Rightarrow> SetupOptions \<Rightarrow> bool \<times> app_effect list) option"

definition createMacOSHandler :: PlatformHandler where
  "createMacOSHandler =
     \<lparr>registerProtocol = macos_registerProtocol,
      extractDeepLinkFromArgs = macos_extractDeepLinkFromArgs,
      handleStartupEvents = None\<rparr>"

definition createWindowsHandler :: PlatformHandler where
  "createWindowsHandler =
     \<lparr>registerProtocol = windows_registerProtocol,
      extractDeepLinkFromArgs = windows_extractDeepLinkFromArgs,
      handleStartupEvents = Some windows_handleStartupEvents\<rparr>"

definition createLinuxHandler :: PlatformHandler where
  "createLinuxHandler =
     \<lparr>registerProtocol = linux_registerProtocol,
      extractDeepLinkFromArgs = linux_extractDeepLinkFromArgs,
      handleStartupEvents = None\<rparr>"

fun getPlatformHandler :: "platform \<Rightarrow> PlatformHandler" where
  "getPlatformHandler Darwin = createMacOSHandler"
| "getPlatformHandler Win32 = createWindowsHandler"
| "getPlatformHandler Linux = createLinuxHandler"
| "getPlatformHandler OtherPlatform = createLinuxHandler"

definition isMacOS :: "host_env \<Rightarrow> bool" where
  "isMacOS env = (process_platform env = Darwin)"

section \<open>The instance lock (\<^verbatim>\<open>src/instance-lock.ts\<close>)\<close>

definition normalizeProtocols :: "string list option \<Rightarrow> string list" where
  "normalizeProtocols ps = (case ps of None \<Rightarrow> [] | Some l \<Rightarrow> l)"

record LockResult =
  hasLock :: bool

text \<open>
  \<^verbatim>\<open>acquireInstanceLock\<close>: the result, what was done to the host, and the logger's trace
  extended.
\<close>

definition acquireInstanceLock ::
  "host_env \<Rightarrow> SetupOptions \<Rightarrow> log_entry list
     \<Rightarrow> LockResult \<times> app_effect list \<times> log_entry list" where
  "acquireInstanceLock env opts lg =
     (let platformHandler = getPlatformHandler (process_platform env);
          startup = (case handleStartupEvents platformHandler of
                       None \<Rightarrow> (False, [])
                     | Some handle \<Rightarrow> handle env opts)
      in if fst startup
         then (\<lparr>hasLock = False\<rparr>, snd startup,
               lg @ [Info ''Handling platform startup event, app will quit''])
         else
           (let lock = lock_available env;
                fx = snd startup @ [RequestSingleInstanceLock]
            in if \<not> lock
               then (\<lparr>hasLock = False\<rparr>,
                     fx @ (if onInstanceLockFailed opts then [OnInstanceLockFailed] else []),
                     lg @ [Info ''Another instance is already running''])
               else (\<lparr>hasLock = True\<rparr>, fx @ [OnSecondInstance],
                     lg @ [Info ''Acquired single instance lock''])))"

section \<open>Protocol registration (\<^verbatim>\<open>src/protocol-registry.ts\<close>)\<close>

record ProtocolRegistryResult =
  registered :: "string list"
  failed :: "string list"

text \<open>The loop of \<^verbatim>\<open>registerProtocols\<close> over the configured schemes, with the logger's trace.\<close>

fun register_each ::
  "host_env \<Rightarrow> SetupOptions \<Rightarrow> string list \<Rightarrow> ProtocolRegistryResult \<times> log_entry list
     \<Rightarrow> ProtocolRegistryResult \<times> log_entry list" where
  "register_each env opts [] acc = acc"
| "register_each env opts (scheme # rest) (r, lg) =
     (let lg1 = lg @ [Debug (''Registering protocol: '' @ scheme)];
          success = registerProtocol (getPlatformHandler (process_platform env)) env scheme opts
      in if success
         then register_each env opts rest
                (r\<lparr>registered := registered r @ [scheme]\<rparr>,
                 lg1 @ [Info (''Registered protocol: '' @ scheme)])
         else register_each env opts rest
                (r\<lparr>failed := failed r @ [scheme]\<rparr>,
                 lg1 @ [Error (''Failed to register protocol: '' @ scheme)]))"

definition registerProtocols ::
  "host_env \<Rightarrow> SetupOptions \<Rightarrow> log_entry list \<Rightarrow> ProtocolRegistryResult \<times> log_entry list" where
  "registerProtocols env opts lg =
     register_each env opts (normalizeProtocols (SetupOptions.protocols opts))
       (\<lparr>registered = [], failed = []\<rparr>, lg)"

section \<open>The deep-link manager (\<^verbatim>\<open>src/deep-links.ts\<close>)\<close>

text \<open>
  The closure of \<^verbatim>\<open>createDeepLinkManager\<close>: its parameters \<^verbatim>\<open>options\<close> and \<^verbatim>\<open>protocols\<close>, its
  constant \<^verbatim>\<open>queue\<close> (whose logger is the manager's logger, line 43), and what the manager has
  done to the outside: \<open>invoked\<close> lists the calls of \<^verbatim>\<open>options.onDeepLink\<close>, oldest first,
  and \<open>unhandled\<close> the rejection reasons of promises discarded with \<^verbatim>\<open>void\<close>. Of the methods
  of the manager, \<^verbatim>\<open>queueDeepLink\<close> and \<^verbatim>\<open>cleanup\<close> are not needed below and are left out.
\<close>

record DeepLinkManager =
  m_options :: SetupOptions
  m_protocols :: "string list"
  m_queue :: DeepLinkQueue
  invoked :: "(string \<times> DeepLinkContext) list"
  unhandled :: "string list"

definition log_m :: "log_entry \<Rightarrow> DeepLinkManager \<Rightarrow> DeepLinkManager" where
  "log_m e m = m\<lparr>m_queue := log_to e (m_queue m)\<rparr>"

text \<open>
  How a block of statements ends: normally, by throwing, or suspended for ever at an
  \<^verbatim>\<open>await\<close> of a promise that never settles. Each carries the state reached.
\<close>

datatype completion =
    Normal DeepLinkManager
  | Throws string DeepLinkManager
  | Suspended DeepLinkManager

text \<open>The state of the promise an \<^verbatim>\<open>async\<close> function returns, once nothing more can happen to it.\<close>

datatype settlement = Fulfilled | RejectedWith string | NeverSettles

text \<open>
  The body of the \<^verbatim>\<open>try\<close> block of \<^verbatim>\<open>dispatchDeepLink\<close> (lines 92-99). The handler is called
  synchronously; \<^verbatim>\<open>await\<close> rethrows a rejection inside the block.
\<close>

definition dispatch_try :: "string \<Rightarrow> DeepLinkContext \<Rightarrow> DeepLinkManager \<Rightarrow> completion" where
  "dispatch_try u context m =
     (let m1 = log_m (Debug (''Dispatching deep link: '' @ u)) m
      in case onDeepLink (m_options m1) of
           Some handler \<Rightarrow>
             (let m2 = m1\<lparr>invoked := invoked m1 @ [(u, context)]\<rparr>
              in case handler (invoked m1) u context of
                   Returned \<Rightarrow> Normal m2
                 | Resolved \<Rightarrow> Normal m2
                 | Threw e \<Rightarrow> Throws e m2
                 | Rejected e \<Rightarrow> Throws e m2
                 | Pending \<Rightarrow> Suspended m2)
         | None \<Rightarrow> Normal (log_m (Debug (''No handler for deep link: '' @ u)) m1))"

text \<open>\<^verbatim>\<open>dispatchDeepLink\<close>: the \<^verbatim>\<open>try\<close> block with its \<^verbatim>\<open>catch\<close> clause (lines 100-102).\<close>

definition dispatchDeepLink ::
  "string \<Rightarrow> DeepLinkContext \<Rightarrow> DeepLinkManager \<Rightarrow> settlement \<times> DeepLinkManager" where
  "dispatchDeepLink u context m =
     (case dispatch_try u context m of
        Normal m' \<Rightarrow> (Fulfilled, m')
      | Throws e m' \<Rightarrow>
          (Fulfilled, log_m (Error (''Error dispatching deep link: '' @ u @ '' ('' @ e @ '')'')) m')
      | Suspended m' \<Rightarrow> (NeverSettles, m'))"

text \<open>\<^verbatim>\<open>void promise\<close>: the promise is dropped; a rejection of it is handled by nobody.\<close>

definition void_promise :: "settlement \<times> DeepLinkManager \<Rightarrow> DeepLinkManager" where
  "void_promise r =
     (case fst r of
        RejectedWith e \<Rightarrow> (snd r)\<lparr>unhandled := unhandled (snd r) @ [e]\<rparr>
      | Fulfilled \<Rightarrow> snd r
      | NeverSettles \<Rightarrow> snd r)"

definition handleDeepLink ::
  "URL_ctor \<Rightarrow> string \<Rightarrow> DeepLinkIntent \<Rightarrow> DeepLinkManager \<Rightarrow> DeepLinkManager" where
  "handleDeepLink new_URL u i m =
     (let m0 = log_m (Debug (''Received deep link: '' @ u @ '' (intent: '' @ intent_text i
                              @ '')'')) m
      in case createDeepLinkContext new_URL u i of
           None \<Rightarrow> log_m (Error (''Failed to parse deep link URL: '' @ u)) m0
         | Some context \<Rightarrow>
             if DeepLinkContext.protocol context \<notin> set (m_protocols m0)
             then log_m (Debug (''Ignoring deep link with unregistered protocol: ''
                                 @ DeepLinkContext.protocol context)) m0
             else if \<not> isProcessed (m_queue m0)
             then (let m1 = log_m (Debug (''Queuing deep link for later processing: '' @ u)) m0
                   in m1\<lparr>m_queue := enqueue u i (m_queue m1)\<rparr>)
             else void_promise (dispatchDeepLink u context m0))"

text \<open>
  The loop of the anonymous \<^verbatim>\<open>async\<close> function in \<^verbatim>\<open>processPending\<close> (lines 120-125): the
  entries are taken in order, and the next one is reached only when the promise of
  \<^verbatim>\<open>dispatchDeepLink\<close> for the current one is fulfilled.
\<close>

fun dispatch_entries ::
  "URL_ctor \<Rightarrow> QueuedDeepLink list \<Rightarrow> DeepLinkManager \<Rightarrow> settlement \<times> DeepLinkManager" where
  "dispatch_entries new_URL [] m = (Fulfilled, m)"
| "dispatch_entries new_URL (entry # rest) m =
     (case createDeepLinkContext new_URL (QueuedDeepLink.url entry)
             (QueuedDeepLink.intent entry) of
        None \<Rightarrow> dispatch_entries new_URL rest m
      | Some context \<Rightarrow>
          (case dispatchDeepLink (QueuedDeepLink.url entry) context m of
             (Fulfilled, m') \<Rightarrow> dispatch_entries new_URL rest m'
           | (RejectedWith e, m') \<Rightarrow> (RejectedWith e, m')
           | (NeverSettles, m') \<Rightarrow> (NeverSettles, m')))"

text \<open>
  \<^verbatim>\<open>processPending\<close>. The state returned is the one reached when the loop it starts has run
  as far as it can, with no other call of the manager in between.
\<close>

definition processPending :: "URL_ctor \<Rightarrow> DeepLinkManager \<Rightarrow> DeepLinkManager" where
  "processPending new_URL m =
     (let (pending, q) = drain (m_queue m);
          m0 = m\<lparr>m_queue := q\<rparr>
      in if length pending = 0
         then log_m (Debug ''No pending deep links to process'') m0
         else void_promise
                (dispatch_entries new_URL pending
                   (log_m (Info (''Processing '' @ show_nat (length pending)
                                  @ '' pending deep link(s)'')) m0)))"

definition getPending :: "DeepLinkManager \<Rightarrow> string list" where
  "getPending m = map QueuedDeepLink.url (fst (peek (m_queue m)))"

definition clearPending :: "DeepLinkManager \<Rightarrow> DeepLinkManager" where
  "clearPending m = m\<lparr>m_queue := clear (m_queue m)\<rparr>"

section \<open>Set-up (\<^verbatim>\<open>src/deep-links.ts\<close> lines 147-179, \<^verbatim>\<open>src/index.ts\<close>)\<close>

text \<open>
  \<^verbatim>\<open>createDeepLinkManager\<close>: a new queue on the given logger, the listener on macOS, and on
  every platform the scan of the launch arguments. \<^verbatim>\<open>if (launchUrl)\<close> is false for
  \<^verbatim>\<open>undefined\<close> and for the empty string.
\<close>

definition createDeepLinkManager ::
  "URL_ctor \<Rightarrow> host_env \<Rightarrow> SetupOptions \<Rightarrow> log_entry list \<Rightarrow> string list
     \<Rightarrow> DeepLinkManager \<times> app_effect list" where
  "createDeepLinkManager new_URL env opts lg schemes =
     (let m0 = \<lparr>m_options = opts, m_protocols = schemes,
                m_queue = DeepLinkQueue_new\<lparr>logger := lg\<rparr>, invoked = [], unhandled = []\<rparr>;
          launchUrl = extractDeepLinkFromArgs (getPlatformHandler (process_platform env))
                        (process_argv env) schemes;
          m1 = (case launchUrl of
                  None \<Rightarrow> m0
                | Some u \<Rightarrow> if u \<noteq> [] then handleDeepLink new_URL u Launch m0 else m0)
      in if isMacOS env then (m1, [OnOpenUrl]) else (m1, []))"

text \<open>
  The \<^verbatim>\<open>InstanceManager\<close> returned by \<^verbatim>\<open>setupInstance\<close>: its flag and the deep-link manager its
  methods delegate to, absent when the instance must quit.
\<close>

record InstanceManager =
  shouldQuit :: bool
  deepLinkManager :: "DeepLinkManager option"

definition setupInstance ::
  "URL_ctor \<Rightarrow> host_env \<Rightarrow> SetupOptions \<Rightarrow> InstanceManager \<times> app_effect list" where
  "setupInstance new_URL env opts =
     (let lg = [Info ''Setting up electron-launch-handler'',
                Debug ''Single instance mode enabled''];
          (lockResult, fx, lg1) = acquireInstanceLock env opts lg
      in if \<not> hasLock lockResult
         then (\<lparr>shouldQuit = True, deepLinkManager = None\<rparr>, fx)
         else
           (let (protocolResult, lg2) = registerProtocols env opts lg1;
                (m, fx2) = createDeepLinkManager new_URL env opts lg2 (registered protocolResult)
            in (\<lparr>shouldQuit = False, deepLinkManager = Some m\<rparr>, fx @ fx2)))"

text \<open>The calls of the consumer that \<^verbatim>\<open>processPending\<close> owes for a list of drained entries.\<close>

fun expected_calls :: "URL_ctor \<Rightarrow> QueuedDeepLink list \<Rightarrow> (string \<times> DeepLinkContext) list" where
  "expected_calls new_URL [] = []"
| "expected_calls new_URL (entry # rest) =
     (case createDeepLinkContext new_URL (QueuedDeepLink.url entry)
             (QueuedDeepLink.intent entry) of
        None \<Rightarrow> expected_calls new_URL rest
      | Some c \<Rightarrow> (QueuedDeepLink.url entry, c) # expected_calls new_URL rest)"

section \<open>Fixtures for the concrete cases\<close>

text \<open>
  A configuration with the one scheme \<^verbatim>\<open>myapp\<close> and a given consumer, the manager created
  for it with an empty queue, and the context that the reference constructor yields for
  \<^verbatim>\<open>myapp://<host>\<close>.
\<close>

definition demo_options :: "DeepLinkHandler option \<Rightarrow> SetupOptions" where
  "demo_options h =
     \<lparr>SetupOptions.protocols = Some [''myapp''], onDeepLink = h, onInstanceLockFailed = False,
      windows = None, linux = None\<rparr>"

definition demo_manager :: "DeepLinkHandler option \<Rightarrow> DeepLinkManager" where
  "demo_manager h =
     \<lparr>m_options = demo_options h, m_protocols = [''myapp''], m_queue = DeepLinkQueue_new,
      invoked = [], unhandled = []\<rparr>"

definition demo_context :: "string \<Rightarrow> string \<Rightarrow> DeepLinkIntent \<Rightarrow> DeepLinkContext" where
  "demo_context u h i =
     \<lparr>DeepLinkContext.url = u,
      DeepLinkContext.parsed =
        \<lparr>URL.protocol = ''myapp:'', URL.host = h, pathname = [], search = [],
         searchParams = [], URL.hash = []\<rparr>,
      DeepLinkContext.protocol = ''myapp'',
      DeepLinkContext.path = [],
      DeepLinkContext.params = [],
      DeepLinkContext.intent = i\<rparr>"

text \<open>A consumer that throws on its first call and returns normally afterwards.\<close>

definition fails_first :: DeepLinkHandler where
  "fails_first calls u c = (if calls = [] then Threw ''Error: boom'' else Returned)"

text \<open>
  A host of a given platform with given arguments, not packaged, on which the operating
  system refuses the scheme \<^verbatim>\<open>myapp-dev\<close> and accepts every other one and the instance lock
  is free, and a configuration with both schemes.
\<close>

definition demo_env :: "platform \<Rightarrow> string list \<Rightarrow> host_env" where
  "demo_env p args =
     \<lparr>process_platform = p, process_argv = args, process_execPath = ''/opt/app/electron'',
      app_isPackaged = False, app_name = ''App'',
      setAsDefaultProtocolClient = (\<lambda>scheme path as. scheme \<noteq> ''myapp-dev''),
      lock_available = True, desktop_shortcut = (\<lambda>name. False),
      target_exe_name = ''electron''\<rparr>"

definition two_schemes :: SetupOptions where
  "two_schemes =
     \<lparr>SetupOptions.protocols = Some [''myapp'', ''myapp-dev''], onDeepLink = Some fails_first,
      onInstanceLockFailed = False, windows = None, linux = None\<rparr>"

text \<open>The fixture manager with three links queued and a consumer that fails on the first.\<close>

definition three_links :: DeepLinkManager where
  "three_links =
     (demo_manager (Some fails_first))
       \<lparr>m_queue := enqueue_all [(''myapp://a'', Launch), (''myapp://b'', OpenUrl),
                                (''myapp://c'', Launch)] DeepLinkQueue_new\<rparr>"

text \<open>The context that the reference constructor yields for \<^verbatim>\<open>myapp-dev://x\<close>.\<close>

definition dev_context :: DeepLinkContext where
  "dev_context =
     \<lparr>DeepLinkContext.url = ''myapp-dev://x'',
      DeepLinkContext.parsed =
        \<lparr>URL.protocol = ''myapp-dev:'', URL.host = ''x'', pathname = [], search = [],
         searchParams = [], URL.hash = []\<rparr>,
      DeepLinkContext.protocol = ''myapp-dev'',
      DeepLinkContext.path = [],
      DeepLinkContext.params = [],
      DeepLinkContext.intent = OpenUrl\<rparr>"

section \<open>The queue on a store of objects\<close>

text \<open>
  Arrays and objects are shared by reference. To say what a caller can and cannot reach
  through a returned array, the queue is modelled a second time on a store: an entry
  \<^verbatim>\<open>{ url, intent }\<close> and an array of references are objects at addresses, a new object gets
  the next free address, and a mutation replaces the object at an address.
\<close>

type_synonym addr = nat

datatype js_object = EntryObj string DeepLinkIntent | ArrayObj "addr list"

type_synonym store = "js_object list"

definition alloc :: "js_object \<Rightarrow> store \<Rightarrow> addr \<times> store" where
  "alloc obj h = (length h, h @ [obj])"

text \<open>The references held by the array at an address, and the entry at an address.\<close>

definition elements :: "store \<Rightarrow> addr \<Rightarrow> addr list" where
  "elements h a = (case h ! a of ArrayObj refs \<Rightarrow> refs | EntryObj u i \<Rightarrow> [])"

definition entry_at :: "store \<Rightarrow> addr \<Rightarrow> QueuedDeepLink" where
  "entry_at h a =
     (case h ! a of
        EntryObj u i \<Rightarrow> \<lparr>QueuedDeepLink.url = u, QueuedDeepLink.intent = i\<rparr>
      | ArrayObj refs \<Rightarrow> \<lparr>QueuedDeepLink.url = [], QueuedDeepLink.intent = Launch\<rparr>)"

definition is_entry :: "js_object \<Rightarrow> bool" where
  "is_entry obj = (case obj of EntryObj u i \<Rightarrow> True | ArrayObj refs \<Rightarrow> False)"

text \<open>The entries an array shows, read through its references.\<close>

definition view :: "store \<Rightarrow> addr \<Rightarrow> QueuedDeepLink list" where
  "view h arr = map (entry_at h) (elements h arr)"

text \<open>
  The fields of a \<^verbatim>\<open>DeepLinkQueue\<close> instance: \<^verbatim>\<open>this.queue\<close> is a reference to an array,
  \<^verbatim>\<open>this.processed\<close> a boolean, \<^verbatim>\<open>this.logger\<close> the trace as before.
\<close>

record DeepLinkQueue_obj =
  queue_ref :: addr
  processed_flag :: bool
  logger_trace :: "log_entry list"

definition log_s :: "log_entry \<Rightarrow> DeepLinkQueue_obj \<Rightarrow> DeepLinkQueue_obj" where
  "log_s e q = q\<lparr>logger_trace := logger_trace q @ [e]\<rparr>"

definition new_DeepLinkQueue :: "store \<Rightarrow> DeepLinkQueue_obj \<times> store" where
  "new_DeepLinkQueue h =
     (let (a, h1) = alloc (ArrayObj []) h
      in (\<lparr>queue_ref = a, processed_flag = False, logger_trace = []\<rparr>, h1))"

text \<open>\<^verbatim>\<open>this.queue.push({ url, intent })\<close>: a new entry object, and the array changed in place.\<close>

definition enqueue_s ::
  "string \<Rightarrow> DeepLinkIntent \<Rightarrow> DeepLinkQueue_obj \<Rightarrow> store \<Rightarrow> DeepLinkQueue_obj \<times> store" where
  "enqueue_s u i q h =
     (if processed_flag q
      then (log_s (Debug (''Deep link queue already processed, not queuing: '' @ u)) q, h)
      else
        (let (e, h1) = alloc (EntryObj u i) h
         in (log_s (Debug (''Queuing deep link: '' @ u)) q,
             h1[queue_ref q := ArrayObj (elements h1 (queue_ref q) @ [e])])))"

text \<open>The object spread \<^verbatim>\<open>{ ...item }\<close> of an entry: a new object with the same two fields.\<close>

definition spread :: "js_object \<Rightarrow> js_object" where
  "spread obj = (case obj of EntryObj u i \<Rightarrow> EntryObj u i | ArrayObj refs \<Rightarrow> ArrayObj refs)"

fun copy_entries :: "addr list \<Rightarrow> store \<Rightarrow> addr list \<times> store" where
  "copy_entries [] h = ([], h)"
| "copy_entries (r # rs) h =
     (let (a, h1) = alloc (spread (h ! r)) h;
          (as, h2) = copy_entries rs h1
      in (a # as, h2))"

text \<open>\<^verbatim>\<open>array.map((item) => ({ ...item }))\<close>: a new array of new entry objects.\<close>

definition map_spread :: "addr \<Rightarrow> store \<Rightarrow> addr \<times> store" where
  "map_spread arr h =
     (let (copies, h1) = copy_entries (elements h arr) h
      in alloc (ArrayObj copies) h1)"

definition peek_s :: "DeepLinkQueue_obj \<Rightarrow> store \<Rightarrow> addr \<times> DeepLinkQueue_obj \<times> store" where
  "peek_s q h = (let (r, h1) = map_spread (queue_ref q) h in (r, q, h1))"

definition drain_s :: "DeepLinkQueue_obj \<Rightarrow> store \<Rightarrow> addr \<times> DeepLinkQueue_obj \<times> store" where
  "drain_s q h =
     (if processed_flag q
      then (let (r, h1) = alloc (ArrayObj []) h
            in (r, log_s (Debug ''Deep link queue already drained'') q, h1))
      else
        (let (urls, h1) = map_spread (queue_ref q) h;
             (fresh, h2) = alloc (ArrayObj []) h1
         in (urls,
             log_s (Debug (''Draining '' @ show_nat (length (elements h2 urls))
                            @ '' deep link(s) from queue''))
               (q\<lparr>processed_flag := True, queue_ref := fresh\<rparr>),
             h2)))"

definition clear_s :: "DeepLinkQueue_obj \<Rightarrow> store \<Rightarrow> DeepLinkQueue_obj \<times> store" where
  "clear_s q h =
     (let (fresh, h1) = alloc (ArrayObj []) h
      in ((log_s (Debug (''Clearing '' @ show_nat (length (elements h (queue_ref q)))
                          @ '' deep link(s) from queue'')) q)
            \<lparr>queue_ref := fresh\<rparr>,
          h1))"

definition reset_s :: "DeepLinkQueue_obj \<Rightarrow> store \<Rightarrow> DeepLinkQueue_obj \<times> store" where
  "reset_s q h =
     (let (fresh, h1) = alloc (ArrayObj []) h
      in ((log_s (Debug ''Resetting deep link queue'') q)
            \<lparr>queue_ref := fresh, processed_flag := False\<rparr>,
          h1))"

definition size_s :: "DeepLinkQueue_obj \<Rightarrow> store \<Rightarrow> nat" where
  "size_s q h = length (elements h (queue_ref q))"

text \<open>The queue of the first model that an instance on a store stands for.\<close>

definition abs_queue :: "DeepLinkQueue_obj \<Rightarrow> store \<Rightarrow> DeepLinkQueue" where
  "abs_queue q h =
     \<lparr>DeepLinkQueue.queue = view h (queue_ref q), processed = processed_flag q,
      logger = logger_trace q\<rparr>"

text \<open>
  The typing of the instance: \<^verbatim>\<open>this.queue\<close> refers to an array in the store, and every
  element of that array refers to an entry in the store.
\<close>

definition wf_queue :: "DeepLinkQueue_obj \<Rightarrow> store \<Rightarrow> bool" where
  "wf_queue q h =
     (queue_ref q < length h
      \<and> (case h ! queue_ref q of
            ArrayObj refs \<Rightarrow> list_all (\<lambda>a. a < length h \<and> is_entry (h ! a)) refs
          | EntryObj u i \<Rightarrow> False))"

text \<open>
  What a caller can do with a returned array \<open>r\<close>: replace the array at \<open>r\<close> and the objects
  its elements refer to by anything, and allocate objects. All other objects stay.
\<close>

definition mutated_through :: "addr \<Rightarrow> store \<Rightarrow> store \<Rightarrow> bool" where
  "mutated_through r h h' =
     (length h \<le> length h'
      \<and> list_all (\<lambda>a. a = r \<or> a \<in> set (elements h r) \<or> h' ! a = h ! a) [0..<length h])"



text \<open>
  A store with a queue of two entries, the store after \<^verbatim>\<open>peek\<close> (which returns the array at
  address 5), and that store after the caller has emptied the returned array but for its
  second element, overwritten the first returned entry, and allocated an object.
\<close>

definition demo_queue_obj :: DeepLinkQueue_obj where
  "demo_queue_obj = \<lparr>queue_ref = 0, processed_flag = False, logger_trace = []\<rparr>"

definition demo_store :: store where
  "demo_store =
     [ArrayObj [1, 2], EntryObj ''myapp://a'' Launch, EntryObj ''myapp://b'' OpenUrl]"

definition demo_store_peeked :: store where
  "demo_store_peeked =
     demo_store @ [EntryObj ''myapp://a'' Launch, EntryObj ''myapp://b'' OpenUrl, ArrayObj [3, 4]]"

definition demo_store_mutated :: store where
  "demo_store_mutated =
     demo_store @ [EntryObj ''myapp://changed'' OpenUrl, EntryObj ''myapp://b'' OpenUrl,
                   ArrayObj [4], EntryObj ''myapp://new'' Launch]"

section \<open>Properties of the queue\<close>

lemma copy_entry_id [simp]: "copy_entry item = item"
  by (simp add: copy_entry_def)

lemma map_copy_entry [simp]: "map copy_entry items = items"
  by (induction items) simp_all

lemma enqueue_open:
  "\<not> processed q \<Longrightarrow>
     queue (enqueue u i q) = queue q @ [\<lparr>QueuedDeepLink.url = u, QueuedDeepLink.intent = i\<rparr>] \<and> \<not> processed (enqueue u i q)"
  by (simp add: enqueue_def log_to_def)

lemma enqueue_all_open:
  "\<not> processed q \<Longrightarrow>
     queue (enqueue_all xs q) = queue q @ map entry_of xs \<and> \<not> processed (enqueue_all xs q)"
proof (induction xs arbitrary: q)
  case Nil
  then show ?case by simp
next
  case (Cons x xs)
  obtain u i where x: "x = (u, i)" by (cases x)
  from Cons.prems have "\<not> processed (enqueue u i q)"
    and "queue (enqueue u i q) = queue q @ [\<lparr>QueuedDeepLink.url = u, QueuedDeepLink.intent = i\<rparr>]"
    by (simp_all add: enqueue_open)
  with Cons.IH [of "enqueue u i q"] x show ?case
    by (simp add: entry_of_def)
qed

lemma drain_open:
  "\<not> processed q \<Longrightarrow>
     fst (drain q) = queue q \<and> queue (snd (drain q)) = [] \<and> processed (snd (drain q))"
  by (simp add: drain_def log_to_def Let_def)

lemma fresh_drain:
  assumes "queue q = []" and "\<not> processed q"
  shows "fst (drain (enqueue_all xs q)) = map entry_of xs"
    and "size_q (snd (drain (enqueue_all xs q))) = 0"
    and "processed (snd (drain (enqueue_all xs q)))"
  using enqueue_all_open [OF assms(2), of xs] assms(1)
        drain_open [of "enqueue_all xs q"]
  by (simp_all add: size_q_def)




lemma closed_drain:
  "processed q \<Longrightarrow>
     fst (drain q) = [] \<and> queue (snd (drain q)) = queue q \<and> processed (snd (drain q))"
  by (simp add: drain_def log_to_def)


text \<open>
  Claim C2. On a freshly constructed queue, and on a freshly reset one, any sequence of
  \<^verbatim>\<open>enqueue\<close> calls followed by the first \<^verbatim>\<open>drain\<close> returns exactly the enqueued entries in
  the order of the calls, and leaves the queue with size 0. The three-link scenario of the
  specification is the last conjunct.
\<close>

theorem C2_queue_fifo:
  "fst (drain (enqueue_all xs DeepLinkQueue_new)) = map entry_of xs
   \<and> size_q (snd (drain (enqueue_all xs DeepLinkQueue_new))) = 0
   \<and> fst (drain (enqueue_all xs (reset q))) = map entry_of xs
   \<and> size_q (snd (drain (enqueue_all xs (reset q)))) = 0
   \<and> fst (drain (enqueue ''myapp://third'' Launch
                   (enqueue ''myapp://second'' Launch
                     (enqueue ''myapp://first'' Launch DeepLinkQueue_new))))
       = [\<lparr>QueuedDeepLink.url = ''myapp://first'', QueuedDeepLink.intent = Launch\<rparr>,
          \<lparr>QueuedDeepLink.url = ''myapp://second'', QueuedDeepLink.intent = Launch\<rparr>,
          \<lparr>QueuedDeepLink.url = ''myapp://third'', QueuedDeepLink.intent = Launch\<rparr>]"
proof -
  have new: "queue DeepLinkQueue_new = []" "\<not> processed DeepLinkQueue_new"
    by (simp_all add: DeepLinkQueue_new_def)
  have rst: "queue (reset q) = []" "\<not> processed (reset q)"
    by (simp_all add: reset_def log_to_def)
  have three:
    "fst (drain (enqueue ''myapp://third'' Launch
                  (enqueue ''myapp://second'' Launch
                    (enqueue ''myapp://first'' Launch DeepLinkQueue_new))))
     = [\<lparr>QueuedDeepLink.url = ''myapp://first'', QueuedDeepLink.intent = Launch\<rparr>,
        \<lparr>QueuedDeepLink.url = ''myapp://second'', QueuedDeepLink.intent = Launch\<rparr>,
        \<lparr>QueuedDeepLink.url = ''myapp://third'', QueuedDeepLink.intent = Launch\<rparr>]"
    using fresh_drain(1) [OF new, of "[(''myapp://first'', Launch),
        (''myapp://second'', Launch), (''myapp://third'', Launch)]"]
    by (simp add: entry_of_def)
  from fresh_drain(1,2) [OF new, of xs] fresh_drain(1,2) [OF rst, of xs] three
  show ?thesis by blast
qed



section \<open>Properties of the URL layer\<close>


lemma URL_new_invalid:
  "URL_new [] = None" "URL_new ''not a url'' = None" "URL_new ''://missing-protocol'' = None"
  by code_simp+

lemma code_ascii_lower:
  "(of_char (ascii_lower c) :: nat)
     = (if 65 \<le> (of_char c :: nat) \<and> (of_char c :: nat) \<le> 90 then of_char c + 32 else of_char c)"
  by (simp add: ascii_lower_def Let_def)

lemma ascii_lower_fixed:
  "\<not> (65 \<le> (of_char c :: nat) \<and> (of_char c :: nat) \<le> 90) \<Longrightarrow> ascii_lower c = c"
  by (auto simp add: ascii_lower_def Let_def)

lemma ascii_lower_idem: "ascii_lower (ascii_lower c) = ascii_lower c"
  by (rule ascii_lower_fixed) (simp add: code_ascii_lower)

lemma colon_code: "(of_char c :: nat) \<noteq> 58 \<Longrightarrow> c \<noteq> CHR '':''"
  by auto

lemma scheme_char_lower: "is_scheme_char c \<Longrightarrow> ascii_lower c \<noteq> CHR '':''"
proof (rule colon_code)
  assume "is_scheme_char c"
  then have "(of_char c :: nat) \<noteq> 58 \<and> (of_char c :: nat) \<noteq> 26"
    by (auto simp add: is_scheme_char_def is_ascii_alpha_def is_ascii_digit_def Let_def)
  then show "(of_char (ascii_lower c) :: nat) \<noteq> 58"
    by (simp add: code_ascii_lower)
qed

lemma alpha_lower: "is_ascii_alpha c \<Longrightarrow> ascii_lower c \<noteq> CHR '':''"
  by (rule scheme_char_lower) (simp add: is_scheme_char_def)

lemma split_scheme_lower:
  assumes "split_scheme s = Some (scheme, rest)"
  shows "map ascii_lower scheme = scheme \<and> CHR '':'' \<notin> set scheme \<and> scheme \<noteq> []"
proof -
  from assms obtain c cs where s: "s = c # cs" and c: "is_ascii_alpha c"
    and scheme: "scheme = map ascii_lower (c # takeWhile is_scheme_char cs)"
    by (auto simp add: split_scheme_def split: list.splits if_splits)
  have "\<forall>x \<in> set (takeWhile is_scheme_char cs). is_scheme_char x"
    by (auto dest: set_takeWhileD)
  with c have "\<forall>x \<in> set (c # takeWhile is_scheme_char cs). ascii_lower x \<noteq> CHR '':''"
    by (auto simp add: scheme_char_lower alpha_lower)
  then have "CHR '':'' \<notin> set scheme"
    unfolding scheme by auto
  moreover have "map ascii_lower scheme = scheme"
    unfolding scheme by (simp add: ascii_lower_idem)
  ultimately show ?thesis using scheme by simp
qed

lemma replace_trailing_colon_scheme: "replace_trailing_colon (scheme @ '':'') = scheme"
  by (simp add: replace_trailing_colon_def)

lemma URL_new_standard: "url_standard URL_new"
  unfolding url_standard_def
proof (intro allI impI)
  fix raw u
  assume a: "URL_new raw = Some u"
  then obtain scheme rest where sp: "split_scheme (url_input raw) = Some (scheme, rest)"
    by (auto simp add: URL_new_def split: option.splits)
  from a sp have p: "URL.protocol u = scheme @ '':''"
    by (auto simp add: URL_new_def Let_def split: if_splits option.splits)
  from sp p show "\<exists>scheme rest. split_scheme (url_input raw) = Some (scheme, rest)
            \<and> URL.protocol u = scheme @ '':''"
    by blast
qed

lemma parse_success:
  assumes "url_standard new_URL" and "parseDeepLink new_URL raw = Some p"
  shows "ParsedDeepLink.url p = raw"
    and "map ascii_lower (ParsedDeepLink.protocol p) = ParsedDeepLink.protocol p"
    and "CHR '':'' \<notin> set (ParsedDeepLink.protocol p)"
    and "\<exists>rest. split_scheme (url_input raw) = Some (ParsedDeepLink.protocol p, rest)"
proof -
  from assms(2) obtain u where u: "new_URL raw = Some u"
    and p: "p = \<lparr>ParsedDeepLink.url = raw, ParsedDeepLink.parsed = u,
                   ParsedDeepLink.protocol = replace_trailing_colon (URL.protocol u),
                   ParsedDeepLink.host = URL.host u, ParsedDeepLink.path = pathname u,
                   ParsedDeepLink.params = searchParams u, ParsedDeepLink.hash = URL.hash u\<rparr>"
    by (auto simp add: parseDeepLink_def split: option.splits)
  from assms(1) u obtain scheme rest where
    sp: "split_scheme (url_input raw) = Some (scheme, rest)"
    and pr: "URL.protocol u = scheme @ '':''"
    unfolding url_standard_def by blast
  from p pr have pp: "ParsedDeepLink.protocol p = scheme"
    by (simp add: replace_trailing_colon_scheme)
  from p show "ParsedDeepLink.url p = raw" by simp
  from split_scheme_lower [OF sp] pp
  show "map ascii_lower (ParsedDeepLink.protocol p) = ParsedDeepLink.protocol p"
    and "CHR '':'' \<notin> set (ParsedDeepLink.protocol p)" by simp_all
  from sp pp show "\<exists>rest. split_scheme (url_input raw) = Some (ParsedDeepLink.protocol p, rest)"
    by simp
qed

section \<open>Properties of the deep-link manager\<close>

lemma log_m_fields [simp]:
  "m_options (log_m e m) = m_options m"
  "m_protocols (log_m e m) = m_protocols m"
  "invoked (log_m e m) = invoked m"
  "unhandled (log_m e m) = unhandled m"
  "DeepLinkQueue.queue (m_queue (log_m e m)) = DeepLinkQueue.queue (m_queue m)"
  "processed (m_queue (log_m e m)) = processed (m_queue m)"
  by (simp_all add: log_m_def log_to_def)

lemma dispatch_settles:
  "fst (dispatchDeepLink u c m) = Fulfilled \<or> fst (dispatchDeepLink u c m) = NeverSettles"
  by (simp add: dispatchDeepLink_def split: completion.split)

lemma dispatch_frame:
  "unhandled (snd (dispatchDeepLink u c m)) = unhandled m
   \<and> DeepLinkQueue.queue (m_queue (snd (dispatchDeepLink u c m))) = DeepLinkQueue.queue (m_queue m)
   \<and> processed (m_queue (snd (dispatchDeepLink u c m))) = processed (m_queue m)
   \<and> m_options (snd (dispatchDeepLink u c m)) = m_options m
   \<and> m_protocols (snd (dispatchDeepLink u c m)) = m_protocols m"
  by (simp add: dispatchDeepLink_def dispatch_try_def Let_def
           split: completion.split option.split outcome.split)

lemma dispatch_invoked_handler:
  "onDeepLink (m_options m) = Some h \<Longrightarrow>
     invoked (snd (dispatchDeepLink u c m)) = invoked m @ [(u, c)]"
  by (simp add: dispatchDeepLink_def dispatch_try_def Let_def
           split: completion.split option.split outcome.split)

lemma dispatch_invoked_none:
  "onDeepLink (m_options m) = None \<Longrightarrow>
     invoked (snd (dispatchDeepLink u c m)) = invoked m"
  by (simp add: dispatchDeepLink_def dispatch_try_def Let_def)

lemma void_dispatch [simp]: "void_promise (dispatchDeepLink u c m) = snd (dispatchDeepLink u c m)"
  using dispatch_settles [of u c m]
  by (auto simp add: void_promise_def)

lemma handle_queues:
  assumes "createDeepLinkContext new_URL u i = Some context"
    and "DeepLinkContext.protocol context \<in> set (m_protocols m)"
    and "\<not> processed (m_queue m)"
  shows "DeepLinkQueue.queue (m_queue (handleDeepLink new_URL u i m))
           = DeepLinkQueue.queue (m_queue m) @ [entry_of (u, i)]"
    and "\<not> processed (m_queue (handleDeepLink new_URL u i m))"
    and "invoked (handleDeepLink new_URL u i m) = invoked m"
    and "unhandled (handleDeepLink new_URL u i m) = unhandled m"
  using assms
  by (simp_all add: handleDeepLink_def Let_def isProcessed_def enqueue_open entry_of_def)

lemma handle_dispatches:
  assumes "createDeepLinkContext new_URL u i = Some context"
    and "DeepLinkContext.protocol context \<in> set (m_protocols m)"
    and "processed (m_queue m)"
  shows "handleDeepLink new_URL u i m
           = snd (dispatchDeepLink u context
                    (log_m (Debug (''Received deep link: '' @ u @ '' (intent: ''
                                    @ intent_text i @ '')'')) m))"
  using assms
  by (simp add: handleDeepLink_def Let_def isProcessed_def)

lemma context_fields:
  "createDeepLinkContext new_URL u i = Some context \<Longrightarrow>
     DeepLinkContext.url context = u \<and> DeepLinkContext.intent context = i"
  by (auto simp add: createDeepLinkContext_def parseDeepLink_def split: option.splits)

lemma handle_drops:
  assumes "createDeepLinkContext new_URL u i = None
           \<or> (\<exists>c. createDeepLinkContext new_URL u i = Some c
                    \<and> DeepLinkContext.protocol c \<notin> set (m_protocols m))"
  shows "DeepLinkQueue.queue (m_queue (handleDeepLink new_URL u i m)) = DeepLinkQueue.queue (m_queue m)"
    and "processed (m_queue (handleDeepLink new_URL u i m)) = processed (m_queue m)"
    and "invoked (handleDeepLink new_URL u i m) = invoked m"
    and "unhandled (handleDeepLink new_URL u i m) = unhandled m"
  using assms
  by (auto simp add: handleDeepLink_def Let_def)

lemma dispatch_entries_frame:
  "(fst (dispatch_entries new_URL es m) = Fulfilled \<or> fst (dispatch_entries new_URL es m) = NeverSettles)
   \<and> unhandled (snd (dispatch_entries new_URL es m)) = unhandled m
   \<and> DeepLinkQueue.queue (m_queue (snd (dispatch_entries new_URL es m))) = DeepLinkQueue.queue (m_queue m)
   \<and> processed (m_queue (snd (dispatch_entries new_URL es m))) = processed (m_queue m)
   \<and> m_options (snd (dispatch_entries new_URL es m)) = m_options m
   \<and> m_protocols (snd (dispatch_entries new_URL es m)) = m_protocols m"
proof (induction es arbitrary: m)
  case Nil
  then show ?case by simp
next
  case (Cons entry rest)
  show ?case
  proof (cases "createDeepLinkContext new_URL (QueuedDeepLink.url entry) (QueuedDeepLink.intent entry)")
    case None
    with Cons.IH [of m] show ?thesis by simp
  next
    case (Some ctx)
    obtain s m1 where d: "dispatchDeepLink (QueuedDeepLink.url entry) ctx m = (s, m1)"
      by (cases "dispatchDeepLink (QueuedDeepLink.url entry) ctx m")
    from dispatch_settles [of "QueuedDeepLink.url entry" ctx m] d
    have s: "s = Fulfilled \<or> s = NeverSettles" by simp
    from dispatch_frame [of "QueuedDeepLink.url entry" ctx m] d
    have f: "unhandled m1 = unhandled m"
      "DeepLinkQueue.queue (m_queue m1) = DeepLinkQueue.queue (m_queue m)"
      "processed (m_queue m1) = processed (m_queue m)"
      "m_options m1 = m_options m" "m_protocols m1 = m_protocols m"
      by simp_all
    from s show ?thesis
    proof
      assume "s = Fulfilled"
      with Some d f Cons.IH [of m1] show ?thesis by simp
    next
      assume "s = NeverSettles"
      with Some d f show ?thesis by simp
    qed
  qed
qed

lemma dispatch_settling_handler:
  assumes "onDeepLink (m_options m) = Some h" and "h (invoked m) u c \<noteq> Pending"
  shows "fst (dispatchDeepLink u c m) = Fulfilled"
  using assms
  by (simp add: dispatchDeepLink_def dispatch_try_def Let_def split: outcome.split)

lemma dispatch_entries_all:
  assumes "onDeepLink (m_options m) = Some h" and "\<forall>calls u c. h calls u c \<noteq> Pending"
  shows "fst (dispatch_entries new_URL es m) = Fulfilled
    \<and> invoked (snd (dispatch_entries new_URL es m)) = invoked m @ expected_calls new_URL es"
  using assms(1)
proof (induction es arbitrary: m)
  case Nil
  then show ?case by simp
next
  case (Cons entry rest)
  show ?case
  proof (cases "createDeepLinkContext new_URL (QueuedDeepLink.url entry) (QueuedDeepLink.intent entry)")
    case None
    with Cons.IH [OF Cons.prems] show ?thesis by simp
  next
    case (Some ctx)
    obtain s m1 where d: "dispatchDeepLink (QueuedDeepLink.url entry) ctx m = (s, m1)"
      by (cases "dispatchDeepLink (QueuedDeepLink.url entry) ctx m")
    from assms(2) have "h (invoked m) (QueuedDeepLink.url entry) ctx \<noteq> Pending" by blast
    from dispatch_settling_handler [OF Cons.prems this] d have s: "s = Fulfilled" by simp
    from dispatch_frame [of "QueuedDeepLink.url entry" ctx m] d Cons.prems
    have o: "onDeepLink (m_options m1) = Some h" by simp
    from dispatch_invoked_handler [OF Cons.prems, of "QueuedDeepLink.url entry" ctx] d
    have i: "invoked m1 = invoked m @ [(QueuedDeepLink.url entry, ctx)]" by simp
    from Cons.IH [OF o] Some d s i show ?thesis by simp
  qed
qed


lemma void_entries [simp]:
  "void_promise (dispatch_entries new_URL es m) = snd (dispatch_entries new_URL es m)"
  using dispatch_entries_frame [of new_URL es m]
  by (auto simp add: void_promise_def)

lemma processPending_open:
  assumes "\<not> processed (m_queue m)"
  shows "processPending new_URL m =
     (if DeepLinkQueue.queue (m_queue m) = []
      then log_m (Debug ''No pending deep links to process'') (m\<lparr>m_queue := snd (drain (m_queue m))\<rparr>)
      else snd (dispatch_entries new_URL (DeepLinkQueue.queue (m_queue m))
             (log_m (Info (''Processing '' @ show_nat (length (DeepLinkQueue.queue (m_queue m)))
                                  @ '' pending deep link(s)''))
                (m\<lparr>m_queue := snd (drain (m_queue m))\<rparr>))))"
proof -
  obtain pending q where d: "drain (m_queue m) = (pending, q)"
    by (cases "drain (m_queue m)")
  with drain_open [OF assms] have "pending = DeepLinkQueue.queue (m_queue m)" by simp
  with d show ?thesis by (simp add: processPending_def)
qed

lemma processPending_closed:
  assumes "processed (m_queue m)"
  shows "processPending new_URL m =
      log_m (Debug ''No pending deep links to process'') (m\<lparr>m_queue := snd (drain (m_queue m))\<rparr>)"
proof -
  obtain pending q where d: "drain (m_queue m) = (pending, q)"
    by (cases "drain (m_queue m)")
  with closed_drain [OF assms] have "pending = []" by simp
  with d show ?thesis by (simp add: processPending_def)
qed

lemma processPending_frame:
  "processed (m_queue (processPending new_URL m))
   \<and> unhandled (processPending new_URL m) = unhandled m
   \<and> m_options (processPending new_URL m) = m_options m
   \<and> m_protocols (processPending new_URL m) = m_protocols m"
proof (cases "processed (m_queue m)")
  case True
  from closed_drain [OF True] show ?thesis
    by (simp add: processPending_closed [OF True])
next
  case False
  from drain_open [OF False] dispatch_entries_frame show ?thesis
    by (simp add: processPending_open [OF False])
qed

lemma processPending_invokes:
  assumes "\<not> processed (m_queue m)"
    and "onDeepLink (m_options m) = Some h" and "\<forall>calls u c. h calls u c \<noteq> Pending"
  shows "invoked (processPending new_URL m)
           = invoked m @ expected_calls new_URL (DeepLinkQueue.queue (m_queue m))"
proof (cases "DeepLinkQueue.queue (m_queue m) = []")
  case True
  then show ?thesis by (simp add: processPending_open [OF assms(1)])
next
  case False
  let ?m0 = "log_m (Info (''Processing '' @ show_nat (length (DeepLinkQueue.queue (m_queue m)))
                                  @ '' pending deep link(s)''))
                (m\<lparr>m_queue := snd (drain (m_queue m))\<rparr>)"
  from assms(2) have "onDeepLink (m_options ?m0) = Some h" by simp
  from dispatch_entries_all [OF this assms(3), of new_URL "DeepLinkQueue.queue (m_queue m)"] False
  show ?thesis by (simp add: processPending_open [OF assms(1)])
qed

section \<open>Routing of incoming deep links\<close>

lemma handle_frame:
  "m_options (handleDeepLink new_URL u i m) = m_options m
   \<and> m_protocols (handleDeepLink new_URL u i m) = m_protocols m
   \<and> unhandled (handleDeepLink new_URL u i m) = unhandled m"
proof (cases "createDeepLinkContext new_URL u i")
  case None
  then show ?thesis by (simp add: handleDeepLink_def Let_def)
next
  case (Some c)
  let ?m0 = "log_m (Debug (''Received deep link: '' @ u @ '' (intent: ''
                                    @ intent_text i @ '')'')) m"
  from dispatch_frame [of u c ?m0] Some show ?thesis
    by (simp add: handleDeepLink_def Let_def)
qed

text \<open>
  Claim C1. Let the URL parse and let its scheme be in the manager's protocol list. If the
  queue is not processed, \<^verbatim>\<open>handleDeepLink\<close> appends the entry for the URL and the intent to
  the queue and does not call the consumer. If the queue is processed and a consumer is
  configured, it calls the consumer once, with the URL and the context, whose intent is the
  given one, and the queue keeps its entries. The queue is processed after
  \<^verbatim>\<open>processPending\<close>, so the second case is the one that applies from then on.
\<close>

theorem C1_handle_routes:
  assumes "createDeepLinkContext new_URL u i = Some c"
    and "DeepLinkContext.protocol c \<in> set (m_protocols m)"
  shows "(\<not> processed (m_queue m) \<longrightarrow>
            DeepLinkQueue.queue (m_queue (handleDeepLink new_URL u i m))
              = DeepLinkQueue.queue (m_queue m) @ [entry_of (u, i)]
            \<and> invoked (handleDeepLink new_URL u i m) = invoked m)
    \<and> (processed (m_queue m) \<and> onDeepLink (m_options m) \<noteq> None \<longrightarrow>
            invoked (handleDeepLink new_URL u i m) = invoked m @ [(u, c)]
            \<and> DeepLinkContext.intent c = i
            \<and> DeepLinkQueue.queue (m_queue (handleDeepLink new_URL u i m))
                = DeepLinkQueue.queue (m_queue m))
    \<and> processed (m_queue (processPending new_URL m))
    \<and> (onDeepLink (m_options m) \<noteq> None \<longrightarrow>
            invoked (handleDeepLink new_URL u i (processPending new_URL m))
              = invoked (processPending new_URL m) @ [(u, c)]
            \<and> DeepLinkQueue.queue (m_queue (handleDeepLink new_URL u i (processPending new_URL m)))
                = DeepLinkQueue.queue (m_queue (processPending new_URL m)))"
proof -
  have closed: "invoked (handleDeepLink new_URL u i m') = invoked m' @ [(u, c)]
      \<and> DeepLinkQueue.queue (m_queue (handleDeepLink new_URL u i m')) = DeepLinkQueue.queue (m_queue m')"
    if p: "processed (m_queue m')" and h: "onDeepLink (m_options m') \<noteq> None"
      and ps: "m_protocols m' = m_protocols m" for m'
  proof -
    from h obtain f where f: "onDeepLink (m_options m') = Some f" by auto
    from assms(2) ps have mem: "DeepLinkContext.protocol c \<in> set (m_protocols m')" by simp
    let ?m0 = "log_m (Debug (''Received deep link: '' @ u @ '' (intent: ''
                                    @ intent_text i @ '')'')) m'"
    from f have f0: "onDeepLink (m_options ?m0) = Some f" by simp
    from handle_dispatches [OF assms(1) mem p] dispatch_invoked_handler [OF f0, of u c]
      dispatch_frame [of u c ?m0]
    show ?thesis by simp
  qed
  from handle_queues(1,3) [OF assms]
  have "\<not> processed (m_queue m) \<longrightarrow>
            DeepLinkQueue.queue (m_queue (handleDeepLink new_URL u i m))
              = DeepLinkQueue.queue (m_queue m) @ [entry_of (u, i)]
            \<and> invoked (handleDeepLink new_URL u i m) = invoked m"
    by blast
  moreover from closed [of m] context_fields [OF assms(1)]
  have "processed (m_queue m) \<and> onDeepLink (m_options m) \<noteq> None \<longrightarrow>
            invoked (handleDeepLink new_URL u i m) = invoked m @ [(u, c)]
            \<and> DeepLinkContext.intent c = i
            \<and> DeepLinkQueue.queue (m_queue (handleDeepLink new_URL u i m))
                = DeepLinkQueue.queue (m_queue m)"
    by blast
  moreover from processPending_frame [of new_URL m]
  have pp: "processed (m_queue (processPending new_URL m))"
    "m_options (processPending new_URL m) = m_options m"
    "m_protocols (processPending new_URL m) = m_protocols m"
    by simp_all
  moreover from closed [of "processPending new_URL m"] pp
  have "onDeepLink (m_options m) \<noteq> None \<longrightarrow>
            invoked (handleDeepLink new_URL u i (processPending new_URL m))
              = invoked (processPending new_URL m) @ [(u, c)]
            \<and> DeepLinkQueue.queue (m_queue (handleDeepLink new_URL u i (processPending new_URL m)))
                = DeepLinkQueue.queue (m_queue (processPending new_URL m))"
    by simp
  ultimately show ?thesis by blast
qed

lemma demo_context_open:
  "createDeepLinkContext URL_new ''myapp://open'' i = Some (demo_context ''myapp://open'' ''open'' i)"
  unfolding createDeepLinkContext_def parseDeepLink_def demo_context_def
  by code_simp

theorem C1_handle_routes_witness:
  "createDeepLinkContext URL_new ''myapp://open'' OpenUrl
     = Some (demo_context ''myapp://open'' ''open'' OpenUrl)
   \<and> DeepLinkContext.protocol (demo_context ''myapp://open'' ''open'' OpenUrl)
       \<in> set (m_protocols (demo_manager (Some (\<lambda>calls u c. Returned))))
   \<and> \<not> processed (m_queue (demo_manager (Some (\<lambda>calls u c. Returned))))
   \<and> DeepLinkQueue.queue (m_queue (handleDeepLink URL_new ''myapp://open'' OpenUrl
         (demo_manager (Some (\<lambda>calls u c. Returned)))))
       = [entry_of (''myapp://open'', OpenUrl)]
   \<and> invoked (handleDeepLink URL_new ''myapp://open'' OpenUrl
         (demo_manager (Some (\<lambda>calls u c. Returned)))) = []
   \<and> invoked (handleDeepLink URL_new ''myapp://open'' OpenUrl
         (processPending URL_new (demo_manager (Some (\<lambda>calls u c. Returned)))))
       = invoked (processPending URL_new (demo_manager (Some (\<lambda>calls u c. Returned))))
         @ [(''myapp://open'', demo_context ''myapp://open'' ''open'' OpenUrl)]"
proof -
  let ?m = "demo_manager (Some (\<lambda>calls u c. Returned))"
  let ?c = "demo_context ''myapp://open'' ''open'' OpenUrl"
  have h1: "createDeepLinkContext URL_new ''myapp://open'' OpenUrl = Some ?c"
    by (rule demo_context_open)
  have h2: "DeepLinkContext.protocol ?c \<in> set (m_protocols ?m)"
    by (simp add: demo_context_def demo_manager_def)
  have h3: "\<not> processed (m_queue ?m)"
    by (simp add: demo_manager_def DeepLinkQueue_new_def)
  have h4: "onDeepLink (m_options ?m) \<noteq> None"
    by (simp add: demo_manager_def demo_options_def)
  have q: "DeepLinkQueue.queue (m_queue ?m) = []" "invoked ?m = []"
    by (simp_all add: demo_manager_def DeepLinkQueue_new_def)
  from C1_handle_routes [OF h1 h2] h3 h4
  have "DeepLinkQueue.queue (m_queue (handleDeepLink URL_new ''myapp://open'' OpenUrl ?m))
          = DeepLinkQueue.queue (m_queue ?m) @ [entry_of (''myapp://open'', OpenUrl)]"
    and "invoked (handleDeepLink URL_new ''myapp://open'' OpenUrl ?m) = invoked ?m"
    and "invoked (handleDeepLink URL_new ''myapp://open'' OpenUrl (processPending URL_new ?m))
       = invoked (processPending URL_new ?m) @ [(''myapp://open'', ?c)]"
    by blast+
  with q h1 h2 h3 show ?thesis by simp
qed


text \<open>
  \<^verbatim>\<open>onDeepLink\<close> is optional in \<^verbatim>\<open>SetupOptions\<close>. With none configured there is nothing to call:
  \<^verbatim>\<open>dispatchDeepLink\<close> logs that there is no handler, and the queue keeps its entries.
\<close>

lemma handle_without_consumer:
  assumes "createDeepLinkContext new_URL u i = Some c"
    and "DeepLinkContext.protocol c \<in> set (m_protocols m)"
    and "processed (m_queue m)" and "onDeepLink (m_options m) = None"
  shows "invoked (handleDeepLink new_URL u i m) = invoked m
    \<and> DeepLinkQueue.queue (m_queue (handleDeepLink new_URL u i m)) = DeepLinkQueue.queue (m_queue m)"
proof -
  let ?m0 = "log_m (Debug (''Received deep link: '' @ u @ '' (intent: ''
                                    @ intent_text i @ '')'')) m"
  from assms(4) have n: "onDeepLink (m_options ?m0) = None" by simp
  from handle_dispatches [OF assms(1-3)] dispatch_invoked_none [OF n, of u c]
    dispatch_frame [of u c ?m0]
  show ?thesis by simp
qed

lemma other_scheme: "split_scheme (url_input ''other://x'') = Some (''other'', ''//x'')"
  by code_simp

lemma other_dropped:
  assumes "url_standard new_URL"
  shows "createDeepLinkContext new_URL ''other://x'' i = None
    \<or> (\<exists>c. createDeepLinkContext new_URL ''other://x'' i = Some c
           \<and> DeepLinkContext.protocol c = ''other'')"
proof (cases "parseDeepLink new_URL ''other://x''")
  case None
  then show ?thesis by (simp add: createDeepLinkContext_def)
next
  case (Some p)
  from parse_success(4) [OF assms Some] other_scheme
  have "ParsedDeepLink.protocol p = ''other''" by simp
  with Some show ?thesis by (simp add: createDeepLinkContext_def)
qed

text \<open>
  Claim C4. When the URL does not parse, or parses with a scheme that is not in the
  manager's protocol list, \<^verbatim>\<open>handleDeepLink\<close> makes no call of the consumer, leaves the entries
  of the queue and its \<open>processed\<close> flag as they were, and leaves no rejection unhandled. The
  only operation on these paths that can throw is the URL constructor, whose exception
  \<^verbatim>\<open>parseDeepLink\<close> catches. In particular \<^verbatim>\<open>other://x\<close> is dropped so when the protocol list is
  \<^verbatim>\<open>['myapp']\<close>, for every constructor that meets the contract of the URL Standard.
\<close>

theorem C4_invalid_or_unregistered_dropped:
  "((createDeepLinkContext new_URL u i = None
      \<or> (\<exists>c. createDeepLinkContext new_URL u i = Some c
             \<and> DeepLinkContext.protocol c \<notin> set (m_protocols m))) \<longrightarrow>
      invoked (handleDeepLink new_URL u i m) = invoked m
      \<and> DeepLinkQueue.queue (m_queue (handleDeepLink new_URL u i m)) = DeepLinkQueue.queue (m_queue m)
      \<and> processed (m_queue (handleDeepLink new_URL u i m)) = processed (m_queue m)
      \<and> unhandled (handleDeepLink new_URL u i m) = unhandled m)
   \<and> (url_standard new_URL \<and> m_protocols m = [''myapp''] \<longrightarrow>
      invoked (handleDeepLink new_URL ''other://x'' Launch m) = invoked m
      \<and> DeepLinkQueue.queue (m_queue (handleDeepLink new_URL ''other://x'' Launch m))
          = DeepLinkQueue.queue (m_queue m)
      \<and> processed (m_queue (handleDeepLink new_URL ''other://x'' Launch m)) = processed (m_queue m)
      \<and> unhandled (handleDeepLink new_URL ''other://x'' Launch m) = unhandled m)"
proof (rule conjI; rule impI)
  assume a: "createDeepLinkContext new_URL u i = None
      \<or> (\<exists>c. createDeepLinkContext new_URL u i = Some c
             \<and> DeepLinkContext.protocol c \<notin> set (m_protocols m))"
  from handle_drops [OF a]
  show "invoked (handleDeepLink new_URL u i m) = invoked m
      \<and> DeepLinkQueue.queue (m_queue (handleDeepLink new_URL u i m)) = DeepLinkQueue.queue (m_queue m)
      \<and> processed (m_queue (handleDeepLink new_URL u i m)) = processed (m_queue m)
      \<and> unhandled (handleDeepLink new_URL u i m) = unhandled m"
    by simp
next
  assume b: "url_standard new_URL \<and> m_protocols m = [''myapp'']"
  then have std: "url_standard new_URL" and ps: "m_protocols m = [''myapp'']" by simp_all
  from other_dropped [OF std, of Launch] ps
  have "createDeepLinkContext new_URL ''other://x'' Launch = None
      \<or> (\<exists>c. createDeepLinkContext new_URL ''other://x'' Launch = Some c
             \<and> DeepLinkContext.protocol c \<notin> set (m_protocols m))"
    by auto
  from handle_drops [OF this]
  show "invoked (handleDeepLink new_URL ''other://x'' Launch m) = invoked m
      \<and> DeepLinkQueue.queue (m_queue (handleDeepLink new_URL ''other://x'' Launch m))
          = DeepLinkQueue.queue (m_queue m)
      \<and> processed (m_queue (handleDeepLink new_URL ''other://x'' Launch m)) = processed (m_queue m)
      \<and> unhandled (handleDeepLink new_URL ''other://x'' Launch m) = unhandled m"
    by simp
qed

lemma not_a_url: "createDeepLinkContext URL_new ''not a url'' Launch = None"
  by (simp add: createDeepLinkContext_def parseDeepLink_def URL_new_invalid)

theorem C4_invalid_or_unregistered_dropped_witness:
  "createDeepLinkContext URL_new ''not a url'' Launch = None
   \<and> invoked (handleDeepLink URL_new ''not a url'' Launch (demo_manager (Some fails_first))) = []
   \<and> DeepLinkQueue.queue (m_queue (handleDeepLink URL_new ''not a url'' Launch
        (demo_manager (Some fails_first)))) = []
   \<and> url_standard URL_new
   \<and> m_protocols (demo_manager (Some fails_first)) = [''myapp'']
   \<and> invoked (handleDeepLink URL_new ''other://x'' Launch (demo_manager (Some fails_first))) = []
   \<and> DeepLinkQueue.queue (m_queue (handleDeepLink URL_new ''other://x'' Launch
        (demo_manager (Some fails_first)))) = []"
proof -
  let ?m = "demo_manager (Some fails_first)"
  have m: "invoked ?m = []" "DeepLinkQueue.queue (m_queue ?m) = []" "m_protocols ?m = [''myapp'']"
    by (simp_all add: demo_manager_def DeepLinkQueue_new_def)
  from C4_invalid_or_unregistered_dropped [of URL_new "''not a url''" Launch ?m] not_a_url
  have "invoked (handleDeepLink URL_new ''not a url'' Launch ?m) = invoked ?m"
    and "DeepLinkQueue.queue (m_queue (handleDeepLink URL_new ''not a url'' Launch ?m))
           = DeepLinkQueue.queue (m_queue ?m)"
    by blast+
  moreover
  from C4_invalid_or_unregistered_dropped [of URL_new "''not a url''" Launch ?m]
    URL_new_standard m(3)
  have "invoked (handleDeepLink URL_new ''other://x'' Launch ?m) = invoked ?m"
    and "DeepLinkQueue.queue (m_queue (handleDeepLink URL_new ''other://x'' Launch ?m))
           = DeepLinkQueue.queue (m_queue ?m)"
    by blast+
  ultimately show ?thesis using m not_a_url URL_new_standard by simp
qed

section \<open>Failures of the consumer\<close>

text \<open>
  Claim C8. A failure of the consumer stays inside \<^verbatim>\<open>dispatchDeepLink\<close>: the promise it returns
  is never rejected, whatever the consumer does, so neither \<^verbatim>\<open>handleDeepLink\<close> nor
  \<^verbatim>\<open>processPending\<close> leaves a rejection unhandled. When every call of the consumer settles (it
  returns, throws, or its promise is fulfilled or rejected), \<^verbatim>\<open>processPending\<close> on a queue that
  is not processed calls the consumer for every drained entry, in queue order, whichever of
  these calls fail.
\<close>

theorem C8_consumer_failure_contained:
  "(fst (dispatchDeepLink u c m) = Fulfilled \<or> fst (dispatchDeepLink u c m) = NeverSettles)
   \<and> unhandled (handleDeepLink new_URL u i m) = unhandled m
   \<and> unhandled (processPending new_URL m) = unhandled m
   \<and> (\<not> processed (m_queue m) \<and> onDeepLink (m_options m) = Some h
        \<and> (\<forall>calls u c. h calls u c \<noteq> Pending) \<longrightarrow>
        invoked (processPending new_URL m)
          = invoked m @ expected_calls new_URL (DeepLinkQueue.queue (m_queue m)))"
proof -
  have "\<not> processed (m_queue m) \<and> onDeepLink (m_options m) = Some h
        \<and> (\<forall>calls u c. h calls u c \<noteq> Pending) \<longrightarrow>
        invoked (processPending new_URL m)
          = invoked m @ expected_calls new_URL (DeepLinkQueue.queue (m_queue m))"
    using processPending_invokes [of m h new_URL] by blast
  with dispatch_settles [of u c m] handle_frame [of new_URL u i m]
    processPending_frame [of new_URL m]
  show ?thesis by blast
qed

lemma three_links_calls:
  "expected_calls URL_new (DeepLinkQueue.queue (m_queue three_links))
     = [(''myapp://a'', demo_context ''myapp://a'' ''a'' Launch),
        (''myapp://b'', demo_context ''myapp://b'' ''b'' OpenUrl),
        (''myapp://c'', demo_context ''myapp://c'' ''c'' Launch)]"
  unfolding three_links_def demo_context_def
  by code_simp

theorem C8_consumer_failure_contained_witness:
  "\<not> processed (m_queue three_links)
   \<and> onDeepLink (m_options three_links) = Some fails_first
   \<and> (\<forall>calls u c. fails_first calls u c \<noteq> Pending)
   \<and> fails_first (invoked three_links) ''myapp://a'' (demo_context ''myapp://a'' ''a'' Launch)
       = Threw ''Error: boom''
   \<and> invoked (processPending URL_new three_links)
       = [(''myapp://a'', demo_context ''myapp://a'' ''a'' Launch),
          (''myapp://b'', demo_context ''myapp://b'' ''b'' OpenUrl),
          (''myapp://c'', demo_context ''myapp://c'' ''c'' Launch)]
   \<and> unhandled (processPending URL_new three_links) = []"
proof -
  have h1: "\<not> processed (m_queue three_links)"
    by (simp add: three_links_def DeepLinkQueue_new_def enqueue_def log_to_def)
  have h2: "onDeepLink (m_options three_links) = Some fails_first"
    by (simp add: three_links_def demo_manager_def demo_options_def)
  have h3: "\<forall>calls u c. fails_first calls u c \<noteq> Pending"
    by (simp add: fails_first_def)
  have i: "invoked three_links = []" "unhandled three_links = []"
    by (simp_all add: three_links_def demo_manager_def)
  from C8_consumer_failure_contained [of "''myapp://a''" "demo_context ''myapp://a'' ''a'' Launch"
      three_links URL_new Launch fails_first] h1 h2 h3
  have "invoked (processPending URL_new three_links)
          = invoked three_links @ expected_calls URL_new (DeepLinkQueue.queue (m_queue three_links))"
    and "unhandled (processPending URL_new three_links) = unhandled three_links"
    by blast+
  with i three_links_calls h1 h2 h3 show ?thesis
    by (simp add: fails_first_def)
qed

section \<open>The parsed deep link\<close>










section \<open>Extraction of a deep link from the arguments\<close>

lemma starts_with_protocol_iff: "starts_with_protocol arg schemes = is_deep_link schemes arg"
  by (induction schemes) (simp_all add: is_deep_link_def)

lemma macos_extract_find:
  "macos_extractDeepLinkFromArgs argv schemes = find (is_deep_link schemes) argv"
  by (induction argv) (simp_all add: starts_with_protocol_iff)

lemma linux_extract_find:
  "linux_extractDeepLinkFromArgs argv schemes = find (is_deep_link schemes) argv"
  by (induction argv) (simp_all add: starts_with_protocol_iff)

lemma windows_scan_find:
  "n \<le> length argv \<Longrightarrow>
     windows_scan argv schemes n = find (is_deep_link schemes) (rev (take n argv))"
proof (induction n)
  case 0
  then show ?case by simp
next
  case (Suc n)
  then have "take (Suc n) argv = take n argv @ [argv ! n]"
    by (simp add: take_Suc_conv_app_nth)
  with Suc show ?case by (simp add: starts_with_protocol_iff)
qed

lemma windows_extract_find:
  "windows_extractDeepLinkFromArgs argv schemes = find (is_deep_link schemes) (rev argv)"
  by (simp add: windows_extractDeepLinkFromArgs_def windows_scan_find)

text \<open>
  Claim C5. The macOS and the Linux variant of \<^verbatim>\<open>extractDeepLinkFromArgs\<close> return the first
  argument, from the front, that starts with \<^verbatim>\<open><p>://\<close> for a scheme \<^verbatim>\<open>p\<close> of the list; the Windows
  variant returns the first such argument from the back; each returns nothing exactly when
  no argument is of that form. On \<^verbatim>\<open>['exe', 'myapp://a', 'myapp://b']\<close> with the scheme \<^verbatim>\<open>myapp\<close>
  the Windows variant returns \<^verbatim>\<open>myapp://b\<close> and the other two return \<^verbatim>\<open>myapp://a\<close>.
\<close>

theorem C5_extractors_scan_order:
  "macos_extractDeepLinkFromArgs argv schemes = find (is_deep_link schemes) argv
   \<and> linux_extractDeepLinkFromArgs argv schemes = find (is_deep_link schemes) argv
   \<and> windows_extractDeepLinkFromArgs argv schemes = find (is_deep_link schemes) (rev argv)
   \<and> (macos_extractDeepLinkFromArgs argv schemes = None)
       = (\<not> (\<exists>arg \<in> set argv. is_deep_link schemes arg))
   \<and> (linux_extractDeepLinkFromArgs argv schemes = None)
       = (\<not> (\<exists>arg \<in> set argv. is_deep_link schemes arg))
   \<and> (windows_extractDeepLinkFromArgs argv schemes = None)
       = (\<not> (\<exists>arg \<in> set argv. is_deep_link schemes arg))
   \<and> windows_extractDeepLinkFromArgs [''exe'', ''myapp://a'', ''myapp://b''] [''myapp'']
       = Some ''myapp://b''
   \<and> macos_extractDeepLinkFromArgs [''exe'', ''myapp://a'', ''myapp://b''] [''myapp'']
       = Some ''myapp://a''
   \<and> linux_extractDeepLinkFromArgs [''exe'', ''myapp://a'', ''myapp://b''] [''myapp'']
       = Some ''myapp://a''"
proof -
  have w: "windows_extractDeepLinkFromArgs [''exe'', ''myapp://a'', ''myapp://b''] [''myapp'']
       = Some ''myapp://b''"
    by code_simp
  have m: "macos_extractDeepLinkFromArgs [''exe'', ''myapp://a'', ''myapp://b''] [''myapp'']
       = Some ''myapp://a''"
    by code_simp
  have l: "linux_extractDeepLinkFromArgs [''exe'', ''myapp://a'', ''myapp://b''] [''myapp'']
       = Some ''myapp://a''"
    by code_simp
  have n: "(find (is_deep_link schemes) argv = None)
             = (\<not> (\<exists>arg \<in> set argv. is_deep_link schemes arg))"
    "(find (is_deep_link schemes) (rev argv) = None)
             = (\<not> (\<exists>arg \<in> set argv. is_deep_link schemes arg))"
    by (auto simp add: find_None_iff)
  show ?thesis
    unfolding macos_extract_find linux_extract_find windows_extract_find
    using n w m l
    by (simp add: macos_extract_find linux_extract_find windows_extract_find)
qed

section \<open>The protocol list of the manager\<close>

lemma register_each_registered:
  "registered (fst (register_each env opts schemes (r, lg)))
     = registered r @ filter (\<lambda>s. registerProtocol (getPlatformHandler (process_platform env)) env s opts)
                        schemes"
  by (induction schemes arbitrary: r lg) (simp_all add: Let_def)

lemma registerProtocols_registered:
  "registered (fst (registerProtocols env opts lg))
     = filter (\<lambda>s. registerProtocol (getPlatformHandler (process_platform env)) env s opts)
         (normalizeProtocols (SetupOptions.protocols opts))"
  by (simp add: registerProtocols_def register_each_registered)

lemma createDeepLinkManager_protocols:
  "m_protocols (fst (createDeepLinkManager new_URL env opts lg schemes)) = schemes"
  by (simp add: createDeepLinkManager_def Let_def handle_frame split: option.split)

lemma setupInstance_protocols:
  assumes "deepLinkManager (fst (setupInstance new_URL env opts)) = Some m0"
  shows "m_protocols m0
     = filter (\<lambda>s. registerProtocol (getPlatformHandler (process_platform env)) env s opts)
         (normalizeProtocols (SetupOptions.protocols opts))"
proof -
  let ?lg = "[Info ''Setting up electron-launch-handler'', Debug ''Single instance mode enabled'']"
  obtain lockResult fx lg1 where l: "acquireInstanceLock env opts ?lg = (lockResult, fx, lg1)"
    by (cases "acquireInstanceLock env opts ?lg") auto
  obtain protocolResult lg2 where r: "registerProtocols env opts lg1 = (protocolResult, lg2)"
    by (cases "registerProtocols env opts lg1")
  obtain m fx2 where c:
    "createDeepLinkManager new_URL env opts lg2 (registered protocolResult) = (m, fx2)"
    by (cases "createDeepLinkManager new_URL env opts lg2 (registered protocolResult)")
  from assms l r c have "hasLock lockResult" and "m0 = m"
    by (auto simp add: setupInstance_def split: if_splits)
  moreover from createDeepLinkManager_protocols [of new_URL env opts lg2 "registered protocolResult"] c
  have "m_protocols m = registered protocolResult" by simp
  moreover from registerProtocols_registered [of env opts lg1] r
  have "registered protocolResult
     = filter (\<lambda>s. registerProtocol (getPlatformHandler (process_platform env)) env s opts)
         (normalizeProtocols (SetupOptions.protocols opts))" by simp
  ultimately show ?thesis by simp
qed

text \<open>
  Claim C10. When \<^verbatim>\<open>setupInstance\<close> creates a deep-link manager, the protocol list of that
  manager is the list of the configured schemes whose registration succeeded, in order. So
  for a configured scheme whose registration returned false, \<^verbatim>\<open>handleDeepLink\<close> drops every
  URL with that scheme, in every state of the manager: no call of the consumer, and the
  queue and its flag unchanged.
\<close>

theorem C10_filter_is_registered_schemes:
  assumes "deepLinkManager (fst (setupInstance new_URL env opts)) = Some m0"
  shows "m_protocols m0
       = filter (\<lambda>s. registerProtocol (getPlatformHandler (process_platform env)) env s opts)
           (normalizeProtocols (SetupOptions.protocols opts))
    \<and> (\<forall>s m u i c.
          s \<in> set (normalizeProtocols (SetupOptions.protocols opts))
          \<and> \<not> registerProtocol (getPlatformHandler (process_platform env)) env s opts
          \<and> m_protocols m = m_protocols m0
          \<and> createDeepLinkContext new_URL u i = Some c
          \<and> DeepLinkContext.protocol c = s \<longrightarrow>
          invoked (handleDeepLink new_URL u i m) = invoked m
          \<and> DeepLinkQueue.queue (m_queue (handleDeepLink new_URL u i m))
              = DeepLinkQueue.queue (m_queue m)
          \<and> processed (m_queue (handleDeepLink new_URL u i m)) = processed (m_queue m))"
proof -
  note p = setupInstance_protocols [OF assms]
  have "invoked (handleDeepLink new_URL u i m) = invoked m
          \<and> DeepLinkQueue.queue (m_queue (handleDeepLink new_URL u i m))
              = DeepLinkQueue.queue (m_queue m)
          \<and> processed (m_queue (handleDeepLink new_URL u i m)) = processed (m_queue m)"
    if a: "\<not> registerProtocol (getPlatformHandler (process_platform env)) env s opts"
      and b: "m_protocols m = m_protocols m0"
      and c: "createDeepLinkContext new_URL u i = Some c"
      and d: "DeepLinkContext.protocol c = s" for s m u i c
  proof -
    from a b d p have "DeepLinkContext.protocol c \<notin> set (m_protocols m)" by simp
    with c have "createDeepLinkContext new_URL u i = None
           \<or> (\<exists>c. createDeepLinkContext new_URL u i = Some c
                    \<and> DeepLinkContext.protocol c \<notin> set (m_protocols m))" by blast
    from handle_drops(1-3) [OF this] show ?thesis by simp
  qed
  with p show ?thesis by blast
qed

lemma dev_context_parsed:
  "createDeepLinkContext URL_new ''myapp-dev://x'' OpenUrl = Some dev_context"
  unfolding createDeepLinkContext_def parseDeepLink_def dev_context_def
  by code_simp

lemma demo_lock:
  "fst (acquireInstanceLock (demo_env Linux args) opts lg) = \<lparr>hasLock = True\<rparr>"
  by (simp add: acquireInstanceLock_def demo_env_def createLinuxHandler_def Let_def)

lemma demo_setup_running:
  "deepLinkManager (fst (setupInstance URL_new (demo_env Linux args) opts)) \<noteq> None"
proof -
  let ?lg = "[Info ''Setting up electron-launch-handler'', Debug ''Single instance mode enabled'']"
  obtain lockResult fx lg1 where
    l: "acquireInstanceLock (demo_env Linux args) opts ?lg = (lockResult, fx, lg1)"
    by (cases "acquireInstanceLock (demo_env Linux args) opts ?lg") auto
  with demo_lock [of args opts ?lg] have "hasLock lockResult" by simp
  with l show ?thesis
    by (simp add: setupInstance_def split: prod.split)
qed

lemma demo_refused:
  "\<not> registerProtocol (getPlatformHandler (process_platform (demo_env Linux args)))
        (demo_env Linux args) ''myapp-dev'' two_schemes"
  by (simp add: demo_env_def createLinuxHandler_def linux_registerProtocol_def)

lemma demo_accepted:
  "registerProtocol (getPlatformHandler (process_platform (demo_env Linux args)))
        (demo_env Linux args) ''myapp'' two_schemes"
  by (simp add: demo_env_def createLinuxHandler_def linux_registerProtocol_def)

theorem C10_filter_is_registered_schemes_witness:
  "deepLinkManager (fst (setupInstance URL_new (demo_env Linux [''electron'', ''main.js'']) two_schemes))
     = Some (the (deepLinkManager
               (fst (setupInstance URL_new (demo_env Linux [''electron'', ''main.js'']) two_schemes))))
   \<and> ''myapp-dev'' \<in> set (normalizeProtocols (SetupOptions.protocols two_schemes))
   \<and> \<not> registerProtocol
          (getPlatformHandler (process_platform (demo_env Linux [''electron'', ''main.js''])))
          (demo_env Linux [''electron'', ''main.js'']) ''myapp-dev'' two_schemes
   \<and> createDeepLinkContext URL_new ''myapp-dev://x'' OpenUrl = Some dev_context
   \<and> DeepLinkContext.protocol dev_context = ''myapp-dev''
   \<and> m_protocols (the (deepLinkManager
          (fst (setupInstance URL_new (demo_env Linux [''electron'', ''main.js'']) two_schemes))))
       = [''myapp'']
   \<and> invoked (handleDeepLink URL_new ''myapp-dev://x'' OpenUrl
         (the (deepLinkManager
           (fst (setupInstance URL_new (demo_env Linux [''electron'', ''main.js'']) two_schemes)))))
       = invoked (the (deepLinkManager
           (fst (setupInstance URL_new (demo_env Linux [''electron'', ''main.js'']) two_schemes))))
   \<and> DeepLinkQueue.queue (m_queue (handleDeepLink URL_new ''myapp-dev://x'' OpenUrl
         (the (deepLinkManager
           (fst (setupInstance URL_new (demo_env Linux [''electron'', ''main.js'']) two_schemes))))))
       = DeepLinkQueue.queue (m_queue (the (deepLinkManager
           (fst (setupInstance URL_new (demo_env Linux [''electron'', ''main.js'']) two_schemes)))))"
proof -
  let ?env = "demo_env Linux [''electron'', ''main.js'']"
  let ?m0 = "the (deepLinkManager (fst (setupInstance URL_new ?env two_schemes)))"
  have h: "deepLinkManager (fst (setupInstance URL_new ?env two_schemes)) = Some ?m0"
    using demo_setup_running [of "[''electron'', ''main.js'']" two_schemes] by simp
  have s: "''myapp-dev'' \<in> set (normalizeProtocols (SetupOptions.protocols two_schemes))"
    by (simp add: two_schemes_def normalizeProtocols_def)
  have r: "\<not> registerProtocol (getPlatformHandler (process_platform ?env)) ?env ''myapp-dev'' two_schemes"
    by (rule demo_refused)
  have a: "registerProtocol (getPlatformHandler (process_platform ?env)) ?env ''myapp'' two_schemes"
    by (rule demo_accepted)
  have d: "DeepLinkContext.protocol dev_context = ''myapp-dev''"
    by (simp add: dev_context_def)
  note t = C10_filter_is_registered_schemes [OF h]
  from t have "m_protocols ?m0
       = filter (\<lambda>s. registerProtocol (getPlatformHandler (process_platform ?env)) ?env s two_schemes)
           (normalizeProtocols (SetupOptions.protocols two_schemes))"
    by blast
  with r a have p: "m_protocols ?m0 = [''myapp'']"
    by (simp add: two_schemes_def normalizeProtocols_def)
  from t s r dev_context_parsed d
  have "invoked (handleDeepLink URL_new ''myapp-dev://x'' OpenUrl ?m0) = invoked ?m0
      \<and> DeepLinkQueue.queue (m_queue (handleDeepLink URL_new ''myapp-dev://x'' OpenUrl ?m0))
          = DeepLinkQueue.queue (m_queue ?m0)"
    by blast
  with h s r dev_context_parsed d p show ?thesis by blast
qed

section \<open>Startup events and the instance lock\<close>

lemma getSquirrelEvent_known:
  "getSquirrelEvent args = Some ev \<Longrightarrow> ev \<in> set squirrelEvents"
  by (induction args) (auto split: if_splits)

lemma startup_quits:
  assumes "(case windows opts of None \<Rightarrow> None | Some w \<Rightarrow> handleSquirrelEvents w) \<noteq> Some False"
    and "getSquirrelEvent (process_argv env) = Some ev"
    and "ev \<noteq> ''--squirrel-firstrun''"
  shows "fst (windows_handleStartupEvents env opts)"
    and "RequestSingleInstanceLock \<notin> set (snd (windows_handleStartupEvents env opts))"
proof -
  from getSquirrelEvent_known [OF assms(2)] assms(3)
  have ev: "ev = ''--squirrel-install'' \<or> ev = ''--squirrel-updated''
      \<or> ev = ''--squirrel-uninstall'' \<or> ev = ''--squirrel-obsolete''"
    by (simp add: squirrelEvents_def)
  from ev assms(1,2) show "fst (windows_handleStartupEvents env opts)"
    by (auto simp add: windows_handleStartupEvents_def Let_def)
  from ev assms(1,2)
  show "RequestSingleInstanceLock \<notin> set (snd (windows_handleStartupEvents env opts))"
    by (auto simp add: windows_handleStartupEvents_def Let_def)
qed

lemma startup_firstrun:
  assumes "getSquirrelEvent (process_argv env) = Some ''--squirrel-firstrun''"
  shows "windows_handleStartupEvents env opts = (False, [])"
  using assms by (simp add: windows_handleStartupEvents_def Let_def)

text \<open>
  Claim C7, as the code has it. On Windows, with Squirrel handling not disabled, let the
  first \<^verbatim>\<open>--squirrel-*\<close> event among the arguments be \<open>ev\<close>. If \<open>ev\<close> is one of install, updated,
  uninstall and obsolete, \<^verbatim>\<open>acquireInstanceLock\<close> returns \<^verbatim>\<open>hasLock = false\<close> and never requests the
  single-instance lock. If \<open>ev\<close> is \<^verbatim>\<open>--squirrel-firstrun\<close>, the handler returns false ("don't
  quit, just continue"), the lock is requested, and \<^verbatim>\<open>hasLock\<close> is the answer to that request.
\<close>

theorem C7_startup_event_skips_lock:
  assumes "process_platform env = Win32"
    and "(case windows opts of None \<Rightarrow> None | Some w \<Rightarrow> handleSquirrelEvents w) \<noteq> Some False"
    and "getSquirrelEvent (process_argv env) = Some ev"
  shows "(ev \<noteq> ''--squirrel-firstrun'' \<longrightarrow>
            \<not> hasLock (fst (acquireInstanceLock env opts lg))
            \<and> RequestSingleInstanceLock \<notin> set (fst (snd (acquireInstanceLock env opts lg))))
    \<and> (ev = ''--squirrel-firstrun'' \<longrightarrow>
            hasLock (fst (acquireInstanceLock env opts lg)) = lock_available env
            \<and> RequestSingleInstanceLock \<in> set (fst (snd (acquireInstanceLock env opts lg))))"
proof (rule conjI; rule impI)
  assume n: "ev \<noteq> ''--squirrel-firstrun''"
  from startup_quits [OF assms(2,3) n] assms(1)
  show "\<not> hasLock (fst (acquireInstanceLock env opts lg))
      \<and> RequestSingleInstanceLock \<notin> set (fst (snd (acquireInstanceLock env opts lg)))"
    by (simp add: acquireInstanceLock_def createWindowsHandler_def Let_def)
next
  assume f: "ev = ''--squirrel-firstrun''"
  with assms(3) have "getSquirrelEvent (process_argv env) = Some ''--squirrel-firstrun''" by simp
  from startup_firstrun [OF this, of opts] assms(1)
  show "hasLock (fst (acquireInstanceLock env opts lg)) = lock_available env
      \<and> RequestSingleInstanceLock \<in> set (fst (snd (acquireInstanceLock env opts lg)))"
    by (simp add: acquireInstanceLock_def createWindowsHandler_def Let_def)
qed

theorem C7_startup_event_skips_lock_witness:
  "process_platform (demo_env Win32 [''app.exe'', ''--squirrel-install'']) = Win32
   \<and> (case windows (demo_options None) of None \<Rightarrow> None | Some w \<Rightarrow> handleSquirrelEvents w)
       \<noteq> Some False
   \<and> getSquirrelEvent (process_argv (demo_env Win32 [''app.exe'', ''--squirrel-install'']))
       = Some ''--squirrel-install''
   \<and> ''--squirrel-install'' \<noteq> ''--squirrel-firstrun''
   \<and> \<not> hasLock (fst (acquireInstanceLock (demo_env Win32 [''app.exe'', ''--squirrel-install''])
                    (demo_options None) []))
   \<and> RequestSingleInstanceLock
       \<notin> set (fst (snd (acquireInstanceLock (demo_env Win32 [''app.exe'', ''--squirrel-install''])
                    (demo_options None) [])))"
proof -
  let ?env = "demo_env Win32 [''app.exe'', ''--squirrel-install'']"
  have h1: "process_platform ?env = Win32" by (simp add: demo_env_def)
  have h2: "(case windows (demo_options None) of None \<Rightarrow> None | Some w \<Rightarrow> handleSquirrelEvents w)
       \<noteq> Some False" by (simp add: demo_options_def)
  have h3: "getSquirrelEvent (process_argv ?env) = Some ''--squirrel-install''"
    by (simp add: demo_env_def squirrelEvents_def)
  have h4: "''--squirrel-install'' \<noteq> ''--squirrel-firstrun''" by simp
  from C7_startup_event_skips_lock [OF h1 h2 h3, of "[]"] h4
  have "\<not> hasLock (fst (acquireInstanceLock ?env (demo_options None) []))
      \<and> RequestSingleInstanceLock
          \<notin> set (fst (snd (acquireInstanceLock ?env (demo_options None) [])))"
    by blast
  with h1 h2 h3 h4 show ?thesis by blast
qed

text \<open>
  The claim as it was stated fails for \<^verbatim>\<open>--squirrel-firstrun\<close>: the event is recognised by
  \<^verbatim>\<open>getSquirrelEvent\<close>, and the lock is requested and acquired.
\<close>

theorem C7_firstrun_counterexample:
  "getSquirrelEvent (process_argv (demo_env Win32 [''app.exe'', ''--squirrel-firstrun'']))
       = Some ''--squirrel-firstrun''
   \<and> (case windows (demo_options None) of None \<Rightarrow> None | Some w \<Rightarrow> handleSquirrelEvents w)
       \<noteq> Some False
   \<and> RequestSingleInstanceLock
       \<in> set (fst (snd (acquireInstanceLock (demo_env Win32 [''app.exe'', ''--squirrel-firstrun''])
                    (demo_options None) [])))
   \<and> hasLock (fst (acquireInstanceLock (demo_env Win32 [''app.exe'', ''--squirrel-firstrun''])
                    (demo_options None) []))"
  by (simp add: acquireInstanceLock_def createWindowsHandler_def windows_handleStartupEvents_def
        demo_env_def demo_options_def squirrelEvents_def Let_def)

section \<open>Properties of the queue on the store\<close>

lemma copy_entries_closed:
  "list_all (\<lambda>a. a < length h) rs \<Longrightarrow>
     copy_entries rs h
       = ([length h..<length h + length rs], h @ map (\<lambda>r. spread (h ! r)) rs)"
proof (induction rs arbitrary: h)
  case Nil
  then show ?case by simp
next
  case (Cons r rs)
  let ?h1 = "h @ [spread (h ! r)]"
  from Cons.prems have rs: "list_all (\<lambda>a. a < length h) rs" by simp
  then have "list_all (\<lambda>a. a < length ?h1) rs"
    by (auto simp add: list_all_iff)
  from Cons.IH [OF this]
  have ih: "copy_entries rs ?h1
       = ([length ?h1..<length ?h1 + length rs], ?h1 @ map (\<lambda>r. spread (?h1 ! r)) rs)" .
  from rs have same: "map (\<lambda>r. spread (?h1 ! r)) rs = map (\<lambda>r. spread (h ! r)) rs"
    by (auto simp add: list_all_iff nth_append)
  have "[length h..<length h + length (r # rs)]
          = length h # [length ?h1..<length ?h1 + length rs]"
    by (subst upt_rec) simp
  with ih same show ?case by (simp add: alloc_def)
qed

lemma wf_queueD:
  assumes "wf_queue q h"
  shows "queue_ref q < length h"
    and "h ! queue_ref q = ArrayObj (elements h (queue_ref q))"
    and "list_all (\<lambda>a. a < length h \<and> is_entry (h ! a)) (elements h (queue_ref q))"
  using assms
  by (auto simp add: wf_queue_def elements_def split: js_object.splits)

lemma spread_entry: "is_entry obj \<Longrightarrow> spread obj = obj"
  by (cases obj) (simp_all add: spread_def is_entry_def)

lemma map_spread_closed:
  assumes "wf_queue q h"
  shows "map_spread (queue_ref q) h
       = (length h + length (elements h (queue_ref q)),
          h @ map (\<lambda>r. h ! r) (elements h (queue_ref q))
            @ [ArrayObj [length h..<length h + length (elements h (queue_ref q))]])"
proof -
  let ?refs = "elements h (queue_ref q)"
  from wf_queueD(3) [OF assms] have lt: "list_all (\<lambda>a. a < length h) ?refs"
    and en: "\<forall>a \<in> set ?refs. is_entry (h ! a)"
    by (auto simp add: list_all_iff)
  from en have "map (\<lambda>r. spread (h ! r)) ?refs = map (\<lambda>r. h ! r) ?refs"
    by (auto simp add: spread_entry)
  with copy_entries_closed [OF lt] show ?thesis
    by (simp add: map_spread_def alloc_def)
qed

text \<open>Two stores that agree on the array of the queue and the entries it refers to.\<close>

lemma queue_frame:
  assumes wf: "wf_queue q h" and len: "length h \<le> length h'"
    and arr: "h' ! queue_ref q = h ! queue_ref q"
    and ents: "\<forall>a \<in> set (elements h (queue_ref q)). h' ! a = h ! a"
  shows "elements h' (queue_ref q) = elements h (queue_ref q)"
    and "view h' (queue_ref q) = view h (queue_ref q)"
    and "wf_queue q h'"
proof -
  from arr show el: "elements h' (queue_ref q) = elements h (queue_ref q)"
    by (simp add: elements_def)
  from ents el show "view h' (queue_ref q) = view h (queue_ref q)"
    by (simp add: view_def entry_at_def)
  from wf_queueD [OF wf] len arr ents show "wf_queue q h'"
    by (auto simp add: wf_queue_def list_all_iff)
qed

lemma peek_s_result:
  assumes "wf_queue q h" and "peek_s q h = (r, q1, h1)"
  shows "q1 = q"
    and "r = length h + length (elements h (queue_ref q))"
    and "length h \<le> length h1"
    and "\<forall>a < length h. h1 ! a = h ! a"
    and "elements h1 r = [length h..<length h + length (elements h (queue_ref q))]"
    and "view h1 r = view h (queue_ref q)"
proof -
  let ?refs = "elements h (queue_ref q)"
  let ?n = "length ?refs"
  from assms(2) map_spread_closed [OF assms(1)]
  have q1: "q1 = q" and r: "r = length h + ?n"
    and h1: "h1 = h @ map (\<lambda>r. h ! r) ?refs @ [ArrayObj [length h..<length h + ?n]]"
    by (auto simp add: peek_s_def)
  from q1 show "q1 = q" .
  from r show "r = length h + ?n" .
  from h1 show "length h \<le> length h1" by simp
  from h1 show "\<forall>a < length h. h1 ! a = h ! a" by (simp add: nth_append)
  from h1 r have "h1 ! r = ArrayObj [length h..<length h + ?n]"
    by (simp add: nth_append)
  then show el: "elements h1 r = [length h..<length h + ?n]"
    by (simp add: elements_def)
  have "entry_at h1 (length h + k) = entry_at h (?refs ! k)" if "k < ?n" for k
    using that h1 by (simp add: entry_at_def nth_append)
  then have "map (entry_at h1) [length h..<length h + ?n] = map (entry_at h) ?refs"
    by (intro nth_equalityI) simp_all
  with el show "view h1 r = view h (queue_ref q)"
    by (simp add: view_def)
qed

lemma mutated_throughD:
  assumes "mutated_through r h h'"
  shows "length h \<le> length h'"
    and "\<forall>a < length h. a \<noteq> r \<and> a \<notin> set (elements h r) \<longrightarrow> h' ! a = h ! a"
  using assms by (auto simp add: mutated_through_def list_all_iff)

lemma peek_then_mutate:
  assumes wf: "wf_queue q h" and pk: "peek_s q h = (r, q1, h1)"
    and mu: "mutated_through r h1 h2"
  shows "length h \<le> length h2" and "\<forall>a < length h. h2 ! a = h ! a"
proof -
  note p = peek_s_result [OF wf pk]
  from p(3) mutated_throughD(1) [OF mu] show "length h \<le> length h2" by simp
  show "\<forall>a < length h. h2 ! a = h ! a"
  proof (intro allI impI)
    fix a assume a: "a < length h"
    with p(2) have "a \<noteq> r" by simp
    moreover from a p(5) have "a \<notin> set (elements h1 r)" by simp
    moreover from a p(3) have "a < length h1" by simp
    ultimately have "h2 ! a = h1 ! a" using mutated_throughD(2) [OF mu] by blast
    with p(4) a show "h2 ! a = h ! a" by simp
  qed
qed

lemma agree_below:
  assumes wf: "wf_queue q h" and len: "length h \<le> length h'"
    and same: "\<forall>a < length h. h' ! a = h ! a"
  shows "abs_queue q h' = abs_queue q h" and "wf_queue q h'" and "size_s q h' = size_s q h"
proof -
  from wf_queueD [OF wf] same
  have arr: "h' ! queue_ref q = h ! queue_ref q"
    and ents: "\<forall>a \<in> set (elements h (queue_ref q)). h' ! a = h ! a"
    by (auto simp add: list_all_iff)
  from queue_frame [OF wf len arr ents]
  show "abs_queue q h' = abs_queue q h" and "wf_queue q h'" and "size_s q h' = size_s q h"
    by (simp_all add: abs_queue_def size_s_def)
qed

lemma peek_s_refines:
  assumes "wf_queue q h" and "peek_s q h = (r, q1, h1)"
  shows "view h1 r = fst (peek (abs_queue q h))"
    and "abs_queue q1 h1 = snd (peek (abs_queue q h))"
    and "wf_queue q1 h1"
proof -
  note p = peek_s_result [OF assms]
  from p(6) show "view h1 r = fst (peek (abs_queue q h))"
    by (simp add: peek_def abs_queue_def)
  from agree_below(1,2) [OF assms(1) p(3,4)] p(1)
  show "abs_queue q1 h1 = snd (peek (abs_queue q h))" and "wf_queue q1 h1"
    by (simp_all add: peek_def)
qed

lemma drain_s_refines:
  assumes wf: "wf_queue q h" and dr: "drain_s q h = (r, q1, h1)"
  shows "view h1 r = fst (drain (abs_queue q h))
    \<and> abs_queue q1 h1 = snd (drain (abs_queue q h))
    \<and> wf_queue q1 h1"
proof (cases "processed_flag q")
  case True
  with dr have r: "r = length h" and q1: "q1 = log_s (Debug ''Deep link queue already drained'') q"
    and h1: "h1 = h @ [ArrayObj []]"
    by (auto simp add: drain_s_def alloc_def)
  have len: "length h \<le> length h1" and same: "\<forall>a < length h. h1 ! a = h ! a"
    using h1 by (simp_all add: nth_append)
  from r h1 True have "view h1 r = fst (drain (abs_queue q h))"
    by (simp add: view_def elements_def drain_def abs_queue_def)
  moreover from agree_below(1) [OF wf len same] True q1
  have "abs_queue q1 h1 = snd (drain (abs_queue q h))"
    by (simp add: drain_def abs_queue_def log_s_def log_to_def)
  moreover from agree_below(2) [OF wf len same] q1 have "wf_queue q1 h1"
    by (simp add: wf_queue_def log_s_def)
  ultimately show ?thesis by blast
next
  case False
  let ?n = "length (elements h (queue_ref q))"
  obtain h0 where pk: "peek_s q h = (length h + ?n, q, h0)"
    and h0: "map_spread (queue_ref q) h = (length h + ?n, h0)"
    using map_spread_closed [OF wf] by (simp add: peek_s_def)
  note p = peek_s_result [OF wf pk]
  from dr False h0 have r: "r = length h + ?n" and h1: "h1 = h0 @ [ArrayObj []]"
    and q1: "q1 = log_s (Debug (''Draining '' @ show_nat (length (elements h1 r))
                            @ '' deep link(s) from queue''))
               (q\<lparr>processed_flag := True, queue_ref := length h0\<rparr>)"
    by (auto simp add: drain_s_def alloc_def)
  from map_spread_closed [OF wf] h0 have lh0: "r < length h0"
    using r by auto
  from lh0 h1 have keep: "h1 ! r = h0 ! r" by (simp add: nth_append)
  from p(5) r keep have el: "elements h1 r = [length h..<length h + ?n]"
    by (simp add: elements_def)
  have "entry_at h1 a = entry_at h0 a" if "a \<in> set [length h..<length h + ?n]" for a
    using that lh0 r h1 by (simp add: entry_at_def nth_append)
  then have "map (entry_at h1) [length h..<length h + ?n]
      = map (entry_at h0) [length h..<length h + ?n]"
    by (intro map_cong) simp_all
  with el p(5,6) r have v: "view h1 r = view h (queue_ref q)"
    by (simp add: view_def)
  with False have "view h1 r = fst (drain (abs_queue q h))"
    by (simp add: drain_def abs_queue_def Let_def)
  moreover from el have "length (elements h1 r) = length (view h (queue_ref q))"
    by (simp add: view_def)
  with False q1 h1 have "abs_queue q1 h1 = snd (drain (abs_queue q h))"
    by (simp add: drain_def abs_queue_def log_s_def log_to_def view_def elements_def Let_def)
  moreover from q1 h1 have "wf_queue q1 h1"
    by (simp add: wf_queue_def log_s_def)
  ultimately show ?thesis by blast
qed

lemma new_DeepLinkQueue_refines:
  assumes "new_DeepLinkQueue h = (q, h1)"
  shows "abs_queue q h1 = DeepLinkQueue_new \<and> wf_queue q h1"
  using assms
  by (auto simp add: new_DeepLinkQueue_def alloc_def abs_queue_def view_def elements_def
        DeepLinkQueue_new_def wf_queue_def)

lemma enqueue_s_refines:
  assumes wf: "wf_queue q h" and en: "enqueue_s u i q h = (q1, h1)"
  shows "abs_queue q1 h1 = enqueue u i (abs_queue q h) \<and> wf_queue q1 h1"
proof (cases "processed_flag q")
  case True
  with en wf show ?thesis
    by (auto simp add: enqueue_s_def enqueue_def abs_queue_def log_s_def log_to_def wf_queue_def)
next
  case False
  let ?refs = "elements h (queue_ref q)"
  note w = wf_queueD [OF wf]
  from en False have q1: "q1 = log_s (Debug (''Queuing deep link: '' @ u)) q"
    and h1: "h1 = (h @ [EntryObj u i])[queue_ref q := ArrayObj (?refs @ [length h])]"
    using w(1) by (auto simp add: enqueue_s_def alloc_def elements_def nth_append)
  from w(1) h1 have arr: "h1 ! queue_ref q = ArrayObj (?refs @ [length h])"
    by simp
  then have el: "elements h1 (queue_ref q) = ?refs @ [length h]"
    by (simp add: elements_def)
  have old: "h1 ! a = h ! a" if "a \<in> set ?refs" for a
  proof -
    from that w(3) have a: "a < length h" and e: "is_entry (h ! a)"
      by (auto simp add: list_all_iff)
    from e w(2) have "a \<noteq> queue_ref q" by (auto simp add: is_entry_def)
    with a h1 show ?thesis by (simp add: nth_append)
  qed
  from w(1) h1 have new: "h1 ! length h = EntryObj u i"
    by (simp add: nth_append)
  from old have "map (entry_at h1) ?refs = map (entry_at h) ?refs"
    by (intro map_cong) (simp_all add: entry_at_def)
  with el new have v: "view h1 (queue_ref q)
      = view h (queue_ref q) @ [\<lparr>QueuedDeepLink.url = u, QueuedDeepLink.intent = i\<rparr>]"
    by (simp add: view_def entry_at_def)
  from v q1 False have "abs_queue q1 h1 = enqueue u i (abs_queue q h)"
    by (simp add: abs_queue_def enqueue_def log_s_def log_to_def)
  moreover have "wf_queue q1 h1"
  proof -
    from h1 have len: "length h1 = Suc (length h)" by simp
    have "a < length h1 \<and> is_entry (h1 ! a)" if "a \<in> set (?refs @ [length h])" for a
    proof (cases "a = length h")
      case True
      with new len show ?thesis by (simp add: is_entry_def)
    next
      case False
      with that have m: "a \<in> set ?refs" by simp
      with w(3) have "a < length h" and "is_entry (h ! a)" by (auto simp add: list_all_iff)
      with old [OF m] len show ?thesis by simp
    qed
    with arr w(1) len q1 show ?thesis
      by (simp add: wf_queue_def log_s_def list_all_iff)
  qed
  ultimately show ?thesis by blast
qed

lemma clear_s_refines:
  assumes "clear_s q h = (q1, h1)"
  shows "abs_queue q1 h1 = clear (abs_queue q h) \<and> wf_queue q1 h1"
  using assms
  by (auto simp add: clear_s_def clear_def alloc_def abs_queue_def view_def elements_def
        log_s_def log_to_def wf_queue_def)

lemma reset_s_refines:
  assumes "reset_s q h = (q1, h1)"
  shows "abs_queue q1 h1 = reset (abs_queue q h) \<and> wf_queue q1 h1"
  using assms
  by (auto simp add: reset_s_def reset_def alloc_def abs_queue_def view_def elements_def
        log_s_def log_to_def wf_queue_def)

lemma size_s_refines: "size_s q h = size_q (abs_queue q h)"
  by (simp add: size_s_def size_q_def abs_queue_def view_def)

text \<open>
  Claim C9. Let the queue be well-typed in the store. \<^verbatim>\<open>peek\<close> leaves the instance, its
  entries and its \<open>processed\<close> flag as they were, and the array it returns shows the entries
  of the queue. The array and its entries are new objects: whatever the caller then does
  to the returned array and to the objects it refers to, the queue stands for the same
  entries and flag, it stays well-typed, and a later \<^verbatim>\<open>size\<close>, \<^verbatim>\<open>peek\<close> or \<^verbatim>\<open>drain\<close> gives what it
  would have given without the mutation.
\<close>

theorem C9_peek_defensive_copy:
  assumes "wf_queue q h" and "peek_s q h = (r, q1, h1)" and "mutated_through r h1 h2"
  shows "q1 = q
    \<and> abs_queue q1 h1 = abs_queue q h
    \<and> view h1 r = DeepLinkQueue.queue (abs_queue q h)
    \<and> abs_queue q h2 = abs_queue q h
    \<and> wf_queue q h2
    \<and> size_s q h2 = size_s q h
    \<and> (\<forall>r' q' h'. peek_s q h2 = (r', q', h') \<longrightarrow>
          view h' r' = DeepLinkQueue.queue (abs_queue q h))
    \<and> (\<forall>r' q' h'. drain_s q h2 = (r', q', h') \<longrightarrow>
          view h' r' = fst (drain (abs_queue q h)))
    \<and> peek (abs_queue q h) = (DeepLinkQueue.queue (abs_queue q h), abs_queue q h)"
proof -
  note p = peek_s_result [OF assms(1,2)]
  note m = peek_then_mutate [OF assms]
  note a1 = agree_below [OF assms(1) p(3,4)]
  note a2 = agree_below [OF assms(1) m]
  from p(1) a1(1) have one: "q1 = q" "abs_queue q1 h1 = abs_queue q h" by simp_all
  from p(6) have two: "view h1 r = DeepLinkQueue.queue (abs_queue q h)"
    by (simp add: abs_queue_def)
  have later_peek: "view h' r' = DeepLinkQueue.queue (abs_queue q h)"
    if "peek_s q h2 = (r', q', h')" for r' q' h'
    using peek_s_refines(1) [OF a2(2) that] a2(1) by (simp add: peek_def)
  have later_drain: "view h' r' = fst (drain (abs_queue q h))"
    if "drain_s q h2 = (r', q', h')" for r' q' h'
    using drain_s_refines [OF a2(2) that] a2(1) by simp
  have pk: "peek (abs_queue q h) = (DeepLinkQueue.queue (abs_queue q h), abs_queue q h)"
    by (simp add: peek_def)
  from one two a2 later_peek later_drain pk show ?thesis by blast
qed

theorem C9_peek_defensive_copy_witness:
  "wf_queue demo_queue_obj demo_store
   \<and> peek_s demo_queue_obj demo_store = (5, demo_queue_obj, demo_store_peeked)
   \<and> mutated_through 5 demo_store_peeked demo_store_mutated
   \<and> view demo_store_peeked 5 = DeepLinkQueue.queue (abs_queue demo_queue_obj demo_store)
   \<and> view demo_store_mutated 5 = [entry_of (''myapp://b'', OpenUrl)]
   \<and> abs_queue demo_queue_obj demo_store_mutated = abs_queue demo_queue_obj demo_store
   \<and> DeepLinkQueue.queue (abs_queue demo_queue_obj demo_store)
       = [entry_of (''myapp://a'', Launch), entry_of (''myapp://b'', OpenUrl)]
   \<and> size_s demo_queue_obj demo_store_mutated = size_s demo_queue_obj demo_store"
proof -
  have h1: "wf_queue demo_queue_obj demo_store"
    unfolding demo_queue_obj_def demo_store_def by code_simp
  have h2: "peek_s demo_queue_obj demo_store = (5, demo_queue_obj, demo_store_peeked)"
    unfolding demo_queue_obj_def demo_store_def demo_store_peeked_def by code_simp
  have h3: "mutated_through 5 demo_store_peeked demo_store_mutated"
    unfolding demo_store_def demo_store_peeked_def demo_store_mutated_def by code_simp
  have v: "view demo_store_mutated 5 = [entry_of (''myapp://b'', OpenUrl)]"
    unfolding demo_store_def demo_store_mutated_def entry_of_def by code_simp
  have c: "DeepLinkQueue.queue (abs_queue demo_queue_obj demo_store)
       = [entry_of (''myapp://a'', Launch), entry_of (''myapp://b'', OpenUrl)]"
    unfolding demo_queue_obj_def demo_store_def entry_of_def by code_simp
  from C9_peek_defensive_copy [OF h1 h2 h3]
  have "view demo_store_peeked 5 = DeepLinkQueue.queue (abs_queue demo_queue_obj demo_store)"
    and "abs_queue demo_queue_obj demo_store_mutated = abs_queue demo_queue_obj demo_store"
    and "size_s demo_queue_obj demo_store_mutated = size_s demo_queue_obj demo_store"
    by blast+
  with h1 h2 h3 v c show ?thesis by blast
qed

end
